theory Spec2Isabelle
  imports Main "HOL-Library.Word"
begin

unbundle bit_operations_syntax

section \<open>The DYAD wrapper (src/wrapper/wrapper.c)\<close>

text \<open>
  A shallow embedding of the interposition layer of DYAD: the hash-to-topic mapper
  \<open>gen_path_key\<close>, the per-thread context and its constructor \<open>dyad_sync_init\<close>,
  the subscriber and publisher over the Flux key-value store, and the four interposed
  entry points \<open>open\<close>, \<open>fopen\<close>, \<open>close\<close> and \<open>fclose\<close>.

  C strings are \<open>string\<close> (the bytes before the terminating nul), \<open>uint32_t\<close> and
  \<open>uint64_t\<close> are words, \<open>int\<close> and \<open>size_t\<close> values that cannot wrap in the code
  are \<open>int\<close> and \<open>nat\<close>. A pointer that may be \<open>NULL\<close> is an \<open>option\<close>.
\<close>

type_synonym uint32_t = "32 word"
type_synonym uint64_t = "64 word"

subsection \<open>MurmurHash3, x64 128-bit variant\<close>

text \<open>
  Modelled from the spec: \<open>MurmurHash3_x64_128\<close> is defined in \<open>murmur3.c\<close>, outside
  \<open>wrapper.c\<close>; the specification names the hash function as the MurmurHash3 128-bit
  x64 variant, whose reference algorithm is transcribed here. The output is given as the
  four \<open>uint32_t\<close> words \<open>hash[0..3]\<close> that \<open>gen_path_key\<close> reads.
\<close>

definition ROTL64 :: "uint64_t \<Rightarrow> nat \<Rightarrow> uint64_t" where
  "ROTL64 x r = push_bit r x OR drop_bit (64 - r) x"

definition fmix64 :: "uint64_t \<Rightarrow> uint64_t" where
  "fmix64 k0 =
     (let k1 = k0 XOR drop_bit 33 k0;
          k2 = k1 * 0xff51afd7ed558ccd;
          k3 = k2 XOR drop_bit 33 k2;
          k4 = k3 * 0xc4ceb9fe1a85ec53
      in k4 XOR drop_bit 33 k4)"

definition byte64 :: "char \<Rightarrow> uint64_t" where
  "byte64 c = of_nat (of_char c)"

text \<open>A little-endian read of up to eight bytes.\<close>

fun getblock64 :: "string \<Rightarrow> uint64_t" where
  "getblock64 [] = 0"
| "getblock64 (c # cs) = byte64 c OR push_bit 8 (getblock64 cs)"

definition c1 :: uint64_t where "c1 = 0x87c37b91114253d5"
definition c2 :: uint64_t where "c2 = 0x4cf5ad432745937f"

definition mix_k1 :: "uint64_t \<Rightarrow> uint64_t" where
  "mix_k1 k = ROTL64 (k * c1) 31 * c2"

definition mix_k2 :: "uint64_t \<Rightarrow> uint64_t" where
  "mix_k2 k = ROTL64 (k * c2) 33 * c1"

function murmur_body ::
  "string \<Rightarrow> nat \<Rightarrow> nat \<Rightarrow> uint64_t \<Rightarrow> uint64_t \<Rightarrow> uint64_t \<times> uint64_t" where
  "murmur_body data nblocks i h1 h2 =
     (if i < nblocks then
        let k1 = getblock64 (take 8 (drop (16 * i) data));
            k2 = getblock64 (take 8 (drop (16 * i + 8) data));
            h1a = h1 XOR mix_k1 k1;
            h1b = ROTL64 h1a 27 + h2;
            h1c = h1b * 5 + 0x52dce729;
            h2a = h2 XOR mix_k2 k2;
            h2b = ROTL64 h2a 31 + h1c;
            h2c = h2b * 5 + 0x38495ab5
        in murmur_body data nblocks (Suc i) h1c h2c
      else (h1, h2))"
  by pat_completeness auto
termination
  by (relation "measure (\<lambda>(data, nblocks, i, h1, h2). nblocks - i)") auto

declare murmur_body.simps [simp del]

text \<open>One arm of the fall-through \<open>switch (len & 15)\<close>: byte \<open>j\<close> of the tail takes
  part when more than \<open>j\<close> bytes remain.\<close>

definition tail_byte :: "string \<Rightarrow> nat \<Rightarrow> nat \<Rightarrow> nat \<Rightarrow> uint64_t" where
  "tail_byte tail r j s = (if j < r then push_bit s (byte64 (tail ! j)) else 0)"

definition MurmurHash3_x64_128 ::
  "string \<Rightarrow> nat \<Rightarrow> uint32_t \<Rightarrow> uint32_t \<times> uint32_t \<times> uint32_t \<times> uint32_t" where
  "MurmurHash3_x64_128 key len seed =
     (let nblocks = len div 16;
          (h1, h2) = murmur_body key nblocks 0 (ucast seed) (ucast seed);
          tail = drop (nblocks * 16) key;
          r = len mod 16;
          k2 = tail_byte tail r 14 48 XOR tail_byte tail r 13 40 XOR tail_byte tail r 12 32 XOR
               tail_byte tail r 11 24 XOR tail_byte tail r 10 16 XOR tail_byte tail r 9 8 XOR
               tail_byte tail r 8 0;
          h2 = (if 9 \<le> r then h2 XOR mix_k2 k2 else h2);
          k1 = tail_byte tail r 7 56 XOR tail_byte tail r 6 48 XOR tail_byte tail r 5 40 XOR
               tail_byte tail r 4 32 XOR tail_byte tail r 3 24 XOR tail_byte tail r 2 16 XOR
               tail_byte tail r 1 8 XOR tail_byte tail r 0 0;
          h1 = (if 1 \<le> r then h1 XOR mix_k1 k1 else h1);
          h1 = h1 XOR of_nat len;
          h2 = h2 XOR of_nat len;
          h1 = h1 + h2;
          h2 = h2 + h1;
          h1 = fmix64 h1;
          h2 = fmix64 h2;
          h1 = h1 + h2;
          h2 = h2 + h1
      in (ucast h1, ucast (drop_bit 32 h1), ucast h2, ucast (drop_bit 32 h2)))"

subsection \<open>Formatting into a bounded buffer\<close>

definition hex_digit :: "nat \<Rightarrow> char" where
  "hex_digit n = ''0123456789abcdef'' ! n"

text \<open>The conversion \<open>%x\<close>: lowercase hexadecimal without leading zeros.\<close>

function hex_of_nat :: "nat \<Rightarrow> string" where
  "hex_of_nat n = (if n < 16 then [hex_digit n] else hex_of_nat (n div 16) @ [hex_digit (n mod 16)])"
  by pat_completeness auto
termination
  by (relation "measure id") auto

declare hex_of_nat.simps [simp del]

text \<open>
  \<open>snprintf (buf + off, sz, ...)\<close> where the formatted text is \<open>s\<close>: at most
  \<open>sz - 1\<close> bytes of \<open>s\<close> are stored behind the first \<open>off\<close> bytes of the buffer,
  followed by the terminating nul; nothing is stored when \<open>sz\<close> is 0. The value
  returned is the length \<open>s\<close> has untruncated (strings are shorter than \<open>2\<^sup>3\<^sup>1\<close> bytes,
  and formatting into memory has no output error, so the value is never negative). The
  buffer is given by the C string it holds.
\<close>

definition snprintf :: "string \<Rightarrow> nat \<Rightarrow> nat \<Rightarrow> string \<Rightarrow> string \<times> int" where
  "snprintf buf off sz s =
     ((if sz = 0 then buf else take off buf @ take (sz - 1) s), int (length s))"

subsection \<open>The hash-to-topic mapper\<close>

text \<open>
  A call either returns, or executes \<open>% width\<close> with \<open>width = 0\<close>, which has no defined
  behaviour in C (on the usual platforms the process is killed by \<open>SIGFPE\<close>).
\<close>

datatype 'a outcome = Returns 'a | Div_By_Zero

definition seeds :: "uint32_t list" where
  "seeds = [104677, 104681, 104683, 104693, 104701, 104707, 104711, 104717, 104723, 104729]"

definition xor_fold :: "uint32_t \<times> uint32_t \<times> uint32_t \<times> uint32_t \<Rightarrow> uint32_t" where
  "xor_fold h = (case h of (h0, h1, h2, h3) \<Rightarrow> h0 XOR h1 XOR h2 XOR h3)"

text \<open>The text that the format \<open>"%x."\<close> produces for a bin.\<close>

definition fmt_bin :: "uint32_t \<Rightarrow> string" where
  "fmt_bin bin = hex_of_nat (unat bin) @ ''.''"

text \<open>
  The \<open>for\<close> loop of \<open>gen_path_key\<close>, from the iteration \<open>d\<close> on, with the running
  \<open>seed\<close>, the write offset \<open>cx\<close> and the buffer's contents \<open>buf\<close>; \<open>depth\<close> is the
  value of the \<open>uint32_t\<close> bound. Behind the loop comes the final \<open>snprintf\<close> of the path.
\<close>

function gen_path_key_loop ::
  "string \<Rightarrow> nat \<Rightarrow> nat \<Rightarrow> uint32_t \<Rightarrow> nat \<Rightarrow> uint32_t \<Rightarrow> nat \<Rightarrow> string \<Rightarrow> (int \<times> string) outcome"
  where
  "gen_path_key_loop str len depth width d seed cx buf =
     (if d < depth then
        let seed' = seed + seeds ! (d mod 10);
            hash = MurmurHash3_x64_128 str (length str) seed'
        in if width = 0 then Div_By_Zero
           else
             let bin = xor_fold hash mod width;
                 (buf', n) = snprintf buf cx (len - cx) (fmt_bin bin);
                 cx' = cx + nat n
             in if cx' \<ge> len \<or> n < 0 then Returns (-1, buf')
                else gen_path_key_loop str len depth width (Suc d) seed' cx' buf'
      else
        let (buf', n) = snprintf buf cx (len - cx) str
        in if cx + nat n \<ge> len \<or> n < 0 then Returns (-1, buf') else Returns (0, buf'))"
  by pat_completeness auto
termination
  by (relation "measure (\<lambda>(str, len, depth, width, d, seed, cx, buf). depth - d)") auto

declare gen_path_key_loop.simps [simp del]

text \<open>
  \<open>gen_path_key (str, path_key, len, depth, width)\<close>: the buffer \<open>path_key\<close> is \<open>None\<close>
  for a null pointer and otherwise the C string it holds before the call; the result is
  the value returned together with the buffer's contents afterwards.
\<close>

definition gen_path_key ::
  "string \<Rightarrow> string option \<Rightarrow> nat \<Rightarrow> uint32_t \<Rightarrow> uint32_t \<Rightarrow> (int \<times> string option) outcome"
  where
  "gen_path_key str path_key len depth width =
     (case path_key of
        None \<Rightarrow> Returns (-1, None)
      | Some buf \<Rightarrow>
          if len = 0 then Returns (-1, Some buf)
          else (case gen_path_key_loop str len (unat depth) width 0 57 0 [] of
                  Div_By_Zero \<Rightarrow> Div_By_Zero
                | Returns (rc, buf') \<Rightarrow> Returns (rc, Some buf')))"

subsection \<open>The key as a closed formula\<close>

text \<open>The seed in effect at level \<open>i\<close>: the loop adds one table entry per level to
  the running seed, which starts from 57 (in \<open>uint32_t\<close> arithmetic).\<close>

definition seed_at :: "nat \<Rightarrow> uint32_t" where
  "seed_at i = 57 + sum_list (map (\<lambda>j. seeds ! (j mod 10)) [0..<Suc i])"

definition bin_at :: "string \<Rightarrow> uint32_t \<Rightarrow> uint32_t \<Rightarrow> string" where
  "bin_at p w seed = hex_of_nat (unat (xor_fold (MurmurHash3_x64_128 p (length p) seed) mod w))"

definition bins_prefix :: "string \<Rightarrow> uint32_t \<Rightarrow> nat \<Rightarrow> nat \<Rightarrow> string" where
  "bins_prefix p w lo hi = concat (map (\<lambda>i. bin_at p w (seed_at i) @ ''.'') [lo..<hi])"

definition topic_key :: "string \<Rightarrow> nat \<Rightarrow> uint32_t \<Rightarrow> string" where
  "topic_key p d w = bins_prefix p w 0 d @ p"

text \<open>The key as the specification words it: every level seeded by
  \<open>57 + seeds[i mod 10]\<close> on its own.\<close>

definition spec_seed :: "nat \<Rightarrow> uint32_t" where
  "spec_seed i = 57 + seeds ! (i mod 10)"

definition spec_key :: "string \<Rightarrow> nat \<Rightarrow> uint32_t \<Rightarrow> string" where
  "spec_key p d w = concat (map (\<lambda>i. bin_at p w (spec_seed i) @ ''.'') [0..<d]) @ p"

text \<open>The seed the loop holds on entry to iteration \<open>d\<close>.\<close>

definition seed_before :: "nat \<Rightarrow> uint32_t" where
  "seed_before d = (case d of 0 \<Rightarrow> 57 | Suc i \<Rightarrow> seed_at i)"

text \<open>What a call leaves behind when the whole key is \<open>full\<close>: the key, if it fits
  with its terminating nul, and otherwise its first \<open>len - 1\<close> bytes.\<close>

definition key_result :: "nat \<Rightarrow> string \<Rightarrow> (int \<times> string) outcome" where
  "key_result len full =
     (if length full < len then Returns (0, full) else Returns (-1, take (len - 1) full))"

text \<open>Some \<open>snprintf\<close> of the call would overflow a buffer of \<open>len\<close> bytes: the text up
  to and including some bin, or the whole key, does not leave room for the nul.\<close>

definition would_overflow :: "string \<Rightarrow> nat \<Rightarrow> nat \<Rightarrow> uint32_t \<Rightarrow> bool" where
  "would_overflow p len d w \<longleftrightarrow>
     (\<exists>i<d. len \<le> length (bins_prefix p w 0 (Suc i))) \<or> len \<le> length (topic_key p d w)"

subsection \<open>The context\<close>

text \<open>
  Modelled from the spec: \<open>dyad_sync_ctx_t\<close> and its default value
  \<open>dyad_sync_ctx_t_default\<close> are declared in \<open>dyad_ctx.h\<close>, outside \<open>wrapper.c\<close>. The record
  has the fields that \<open>wrapper.c\<close> reads and writes, with the types of the context record
  of the specification; the transport handle \<open>h\<close> is \<open>None\<close> when it is \<open>NULL\<close>. The
  default value is a parameter of \<open>dyad_sync_init\<close>.
\<close>

type_synonym flux_t = nat

record dyad_sync_ctx_t =
  h :: "flux_t option"
  debug :: bool
  check :: bool
  reenter :: bool
  initialized :: bool
  shared_storage :: bool
  sync_started :: bool
  key_depth :: uint32_t
  key_bins :: uint32_t
  rank :: uint32_t
  kvs_namespace :: "string option"

text \<open>The options of the build that change what is compiled: \<open>#if DYAD_PERFFLOW\<close>,
  \<open>#if DYAD_SYNC_DIR\<close> and \<open>#if DYAD_SYNC_START\<close>.\<close>

record build =
  DYAD_PERFFLOW :: bool
  DYAD_SYNC_DIR :: bool
  DYAD_SYNC_START :: bool

subsection \<open>The world around the wrapper\<close>

text \<open>
  Everything outside \<open>wrapper.c\<close> that a call consults is a field of the record
  \<open>world\<close>: the environment, the dynamic loader, the C library, the helpers of
  \<open>utils.h\<close> and the Flux transport. A field says what the call returns for its
  arguments during the run looked at; a call that blocks, as the wait-create lookup
  does, is given by the reply it returns with. Calls that act on the outside are also
  recorded, in order, as events; so are the writes to \<open>ctx->reenter\<close> and the entries
  into the subscriber and the publisher.
\<close>

type_synonym FILE = nat

text \<open>The reply to the wait-create lookup: \<open>flux_kvs_lookup\<close> returns \<open>NULL\<close>,
  or \<open>flux_kvs_lookup_get_unpack\<close> fails, or it stores the owner's rank.\<close>

datatype lookup_reply = Lookup_Null | Unpack_Fails | Owner uint32_t

record world =
  getenv :: "string \<Rightarrow> string option"
  malloc_fails :: bool
  flux_open :: "flux_t option"
  flux_get_rank :: "flux_t option \<Rightarrow> uint32_t option"
  dlsym_fails :: "string \<Rightarrow> bool"
  is_path_dir :: "string option \<Rightarrow> bool"
  is_fd_dir :: "int \<Rightarrow> bool"
  get_path :: "int \<Rightarrow> string option"
  fileno :: "FILE option \<Rightarrow> int"
  fcntl_getfl :: "int \<Rightarrow> int"
  libc_fsync :: "int \<Rightarrow> int"
  cmp_canonical_path_prefix :: "string \<Rightarrow> string option \<Rightarrow> string option"
  concat_str :: "string \<Rightarrow> string \<Rightarrow> string"
  dirname :: "string \<Rightarrow> string"
  mkdir_as_needed :: "string \<Rightarrow> int"
  fwrite_complete :: "FILE \<Rightarrow> string \<Rightarrow> bool"
  libc_open :: "string option \<Rightarrow> int \<Rightarrow> int \<Rightarrow> int"
  libc_fopen :: "string option \<Rightarrow> string \<Rightarrow> FILE option"
  libc_close :: "int \<Rightarrow> int"
  libc_fclose :: "FILE option \<Rightarrow> int"
  flux_kvs_lookup :: "string option \<Rightarrow> string \<Rightarrow> lookup_reply"
  flux_rpc_pack :: "uint32_t \<Rightarrow> string \<Rightarrow> bool"
  flux_rpc_get_raw :: "uint32_t \<Rightarrow> string \<Rightarrow> string option"
  flux_kvs_txn_create :: bool
  flux_kvs_txn_pack :: "string \<Rightarrow> uint32_t \<Rightarrow> bool"
  flux_kvs_commit :: "string option \<Rightarrow> bool"

text \<open>
  The fields in detail. \<open>dlsym_fails s\<close>: \<open>dlerror\<close> reports an error after
  \<open>dlsym (RTLD_NEXT, s)\<close>. \<open>get_path fd\<close>: the path that \<open>get_path\<close> stores, \<open>None\<close>
  when it returns a negative value. \<open>fileno fp\<close>: the descriptor of a stream; it is
  consulted for a stream that is not null only, see \<open>fclose\<close>. \<open>cmp_canonical_path_prefix prefix path\<close>: the user
  path stored when \<open>path\<close> lies under \<open>prefix\<close>, \<open>None\<close> when the function returns
  false. \<open>concat_str consumer_path user_path\<close>: the contents of \<open>file_path\<close> after the
  \<open>strncpy\<close> and the \<open>concat_str\<close> with \<open>"/"\<close>. \<open>fwrite_complete\<close>: \<open>fwrite\<close> wrote
  all bytes. \<open>flux_rpc_pack\<close>, \<open>flux_kvs_txn_create\<close>, \<open>flux_kvs_commit\<close>: the call
  returns an object, not \<open>NULL\<close>. \<open>flux_kvs_txn_pack\<close>: the call does not return a
  negative value. \<open>flux_rpc_get_raw\<close>: the file's bytes, \<open>None\<close> on a negative return.
\<close>

datatype event =
    Set_reenter bool
  | Subscribe_via_flux string string
  | Publish_via_flux string string
  | Flux_kvs_lookup "string option" string
  | Flux_kvs_lookup_get_unpack
  | Flux_rpc_pack uint32_t string
  | Flux_rpc_get_raw
  | Mkdir_as_needed string
  | Fwrite FILE string
  | Flux_kvs_txn_create
  | Flux_kvs_txn_pack string uint32_t
  | Flux_kvs_commit "string option"
  | Flux_future_wait_for
  | Setenv string string
  | Libc_open "string option" int int
  | Libc_fopen "string option" string
  | Libc_close int
  | Libc_fclose "FILE option"
  | Fsync int
  | Fflush "FILE option"
  | Fcntl_getfl int

text \<open>Constants of the system headers (Linux) and of \<open>dyad.h\<close>.\<close>

definition PATH_MAX :: nat where "PATH_MAX = 4096"
definition EOF :: int where "EOF = -1"
definition O_RDONLY :: int where "O_RDONLY = 0"
definition O_WRONLY :: int where "O_WRONLY = 1"
definition O_ACCMODE :: int where "O_ACCMODE = 3"
definition O_CREAT :: int where "O_CREAT = 64"

text \<open>
  Modelled from the spec: the names of the environment variables are macros of
  \<open>dyad.h\<close>, outside \<open>wrapper.c\<close>; they are taken from the table of environment
  variables in the specification.
\<close>

definition DYAD_PATH_CONS_ENV :: string where "DYAD_PATH_CONS_ENV = ''DYAD_PATH_CONS''"
definition DYAD_PATH_PROD_ENV :: string where "DYAD_PATH_PROD_ENV = ''DYAD_PATH_PROD''"
definition DYAD_CHECK_ENV :: string where "DYAD_CHECK_ENV = ''DYAD_CHECK_ENV''"

subsection \<open>Reading integers from the environment\<close>

definition isspace :: "char \<Rightarrow> bool" where
  "isspace c \<longleftrightarrow> (of_char c :: nat) \<in> {32, 9, 10, 11, 12, 13}"

definition isdigit :: "char \<Rightarrow> bool" where
  "isdigit c \<longleftrightarrow> 48 \<le> (of_char c :: nat) \<and> (of_char c :: nat) \<le> 57"

fun digits_val :: "int \<Rightarrow> string \<Rightarrow> int" where
  "digits_val acc [] = acc"
| "digits_val acc (c # cs) =
     (if isdigit c then digits_val (acc * 10 + (of_char c - 48)) cs else acc)"

text \<open>\<open>strtol (s, NULL, 10)\<close> for a 64-bit \<open>long\<close>: white space, an optional sign, the
  longest run of decimal digits, and a value out of range clamped to the nearest bound.\<close>

definition strtol :: "string \<Rightarrow> int" where
  "strtol s =
     (let s1 = dropWhile isspace s;
          v = (case s1 of
                 [] \<Rightarrow> 0
               | c # cs \<Rightarrow>
                   if c = CHR ''-'' then - digits_val 0 cs
                   else if c = CHR ''+'' then digits_val 0 cs
                   else digits_val 0 s1)
      in max (- (2 ^ 63)) (min (2 ^ 63 - 1) v))"

text \<open>\<open>atoi\<close> is \<open>(int) strtol (s, NULL, 10)\<close>: the low 32 bits of the \<open>long\<close>, read as
  a signed value. (C leaves \<open>atoi\<close> undefined where the value does not fit an \<open>int\<close>;
  this is what the C library does.)\<close>

definition atoi :: "string \<Rightarrow> int" where
  "atoi s = sint (word_of_int (strtol s) :: 32 word)"

subsection \<open>The constructor\<close>

datatype 'a completion = Done 'a | Exit int

text \<open>
  \<open>dyad_sync_init\<close> on the thread's context pointer \<open>ctx\<close> (\<open>None\<close> for \<open>NULL\<close>); the
  result is the pointer afterwards, or \<open>exit (1)\<close>. The barrier taken under
  \<open>DYAD_SYNC_START\<close> touches only \<open>sync_started\<close>.
\<close>

definition dyad_sync_init ::
  "build \<Rightarrow> dyad_sync_ctx_t \<Rightarrow> world \<Rightarrow> dyad_sync_ctx_t option
     \<Rightarrow> dyad_sync_ctx_t option completion" where
  "dyad_sync_init bld dyad_sync_ctx_t_default w ctx =
     (case ctx of
        Some c \<Rightarrow>
          if initialized c then Done (Some c) else Done (Some dyad_sync_ctx_t_default)
      | None \<Rightarrow>
          if malloc_fails w then Exit 1
          else
            let c = dyad_sync_ctx_t_default;
                c = c\<lparr>debug := (getenv w ''DYAD_SYNC_DEBUG'' \<noteq> None)\<rparr>;
                c = c\<lparr>check := (getenv w ''DYAD_SYNC_CHECK'' \<noteq> None)\<rparr>;
                c = c\<lparr>shared_storage := (getenv w ''DYAD_SHARED_STORAGE'' \<noteq> None)\<rparr>;
                c = c\<lparr>key_depth := (case getenv w ''DYAD_KEY_DEPTH'' of
                                        Some e \<Rightarrow> word_of_int (atoi e) | None \<Rightarrow> 3)\<rparr>;
                c = c\<lparr>key_bins := (case getenv w ''DYAD_KEY_BINS'' of
                                       Some e \<Rightarrow> word_of_int (atoi e) | None \<Rightarrow> 1024)\<rparr>;
                c = c\<lparr>reenter := True\<rparr>;
                c = c\<lparr>kvs_namespace := getenv w ''DYAD_KVS_NAMESPACE''\<rparr>;
                c = c\<lparr>h := flux_open w\<rparr>;
                c = (case flux_get_rank w (h c) of Some r \<Rightarrow> c\<lparr>rank := r\<rparr> | None \<Rightarrow> c);
                c = c\<lparr>initialized := True\<rparr>;
                c = (if DYAD_SYNC_START bld then
                       c\<lparr>sync_started :=
                           (case getenv w ''DYAD_SYNC_START'' of
                              Some e \<Rightarrow> atoi e > 0 | None \<Rightarrow> False)\<rparr>
                     else c)
            in Done (Some c))"

text \<open>The invariant of the context that the specification states for the transport.\<close>

definition initialized_implies_transport :: "dyad_sync_ctx_t \<Rightarrow> bool" where
  "initialized_implies_transport c \<longleftrightarrow> (initialized c \<longrightarrow> h c \<noteq> None)"

subsection \<open>The real entry points\<close>

text \<open>\<open>open_real\<close>, \<open>fopen_real\<close>, \<open>close_real\<close> and \<open>fclose_real\<close> resolve the next
  symbol themselves and call it; \<open>varg\<close> is the argument behind \<open>oflag\<close>, read only
  under \<open>O_CREAT\<close>.\<close>

definition open_real :: "world \<Rightarrow> string \<Rightarrow> int \<Rightarrow> int \<Rightarrow> event list \<times> int" where
  "open_real w path oflag varg =
     (if dlsym_fails w ''open'' then ([], -1)
      else
        let mode = (if oflag AND O_CREAT \<noteq> 0 then varg else 0)
        in ([Libc_open (Some path) oflag mode], libc_open w (Some path) oflag mode))"

definition fopen_real :: "world \<Rightarrow> string \<Rightarrow> string \<Rightarrow> event list \<times> FILE option" where
  "fopen_real w path mode =
     (if dlsym_fails w ''fopen'' then ([], None)
      else ([Libc_fopen (Some path) mode], libc_fopen w (Some path) mode))"

definition close_real :: "world \<Rightarrow> int \<Rightarrow> event list \<times> int" where
  "close_real w fd =
     (if dlsym_fails w ''close'' then ([], -1)
      else ([Libc_close fd], libc_close w fd))"

definition fclose_real :: "world \<Rightarrow> FILE \<Rightarrow> event list \<times> int" where
  "fclose_real w fp =
     (if dlsym_fails w ''fclose'' then ([], EOF)
      else ([Libc_fclose (Some fp)], libc_fclose w (Some fp)))"

definition is_wronly :: "world \<Rightarrow> int \<Rightarrow> event list \<times> int" where
  "is_wronly w fd =
     (let rc = fcntl_getfl w fd
      in ([Fcntl_getfl fd],
          if rc = -1 then -1 else if rc AND O_ACCMODE = O_WRONLY then 1 else 0))"

subsection \<open>The subscriber\<close>

text \<open>
  Both the subscriber and the publisher start with
  \<open>memset (topic, 0, topic_len + 1); gen_path_key (user_path, topic, topic_len, ...)\<close>
  for \<open>topic_len = PATH_MAX\<close>, and do not look at the value returned: what counts is
  the string the buffer holds afterwards.
\<close>

definition gen_topic :: "dyad_sync_ctx_t \<Rightarrow> string \<Rightarrow> string outcome" where
  "gen_topic c user_path =
     (case gen_path_key user_path (Some []) PATH_MAX (key_depth c) (key_bins c) of
        Div_By_Zero \<Rightarrow> Div_By_Zero
      | Returns (rc, topic) \<Rightarrow> Returns (case topic of Some t \<Rightarrow> t | None \<Rightarrow> []))"

text \<open>\<open>dyad_kvs_lookup\<close>, compiled under \<open>DYAD_PERFFLOW\<close>: the value returned and the
  rank stored in \<open>owner_rank\<close>, if one is.\<close>

definition dyad_kvs_lookup ::
  "world \<Rightarrow> dyad_sync_ctx_t \<Rightarrow> string \<Rightarrow> event list \<times> int \<times> uint32_t option" where
  "dyad_kvs_lookup w c topic =
     (case flux_kvs_lookup w (kvs_namespace c) topic of
        Lookup_Null \<Rightarrow> ([Flux_kvs_lookup (kvs_namespace c) topic], -1, None)
      | Unpack_Fails \<Rightarrow>
          ([Flux_kvs_lookup (kvs_namespace c) topic, Flux_kvs_lookup_get_unpack], -1, None)
      | Owner r \<Rightarrow>
          ([Flux_kvs_lookup (kvs_namespace c) topic, Flux_kvs_lookup_get_unpack], 0, Some r))"

text \<open>
  The lookup of the owner in \<open>subscribe_via_flux\<close>: the events, and the value of
  \<open>owner_rank\<close> with which the function goes on, or \<open>None\<close> where it leaves through
  \<open>done\<close>. Under \<open>DYAD_PERFFLOW\<close> the value returned by \<open>dyad_kvs_lookup\<close> is not
  looked at, and \<open>owner_rank\<close> keeps its initial 0 when nothing was stored.
\<close>

definition lookup_owner ::
  "build \<Rightarrow> world \<Rightarrow> dyad_sync_ctx_t \<Rightarrow> string \<Rightarrow> event list \<times> uint32_t option" where
  "lookup_owner bld w c topic =
     (if DYAD_PERFFLOW bld then
        (case dyad_kvs_lookup w c topic of
           (ev, rc, stored) \<Rightarrow> (ev, Some (case stored of Some r \<Rightarrow> r | None \<Rightarrow> 0)))
      else
        (case flux_kvs_lookup w (kvs_namespace c) topic of
           Lookup_Null \<Rightarrow> ([Flux_kvs_lookup (kvs_namespace c) topic], None)
         | Unpack_Fails \<Rightarrow>
             ([Flux_kvs_lookup (kvs_namespace c) topic, Flux_kvs_lookup_get_unpack], None)
         | Owner r \<Rightarrow>
             ([Flux_kvs_lookup (kvs_namespace c) topic, Flux_kvs_lookup_get_unpack], Some r)))"

text \<open>The end of \<open>subscribe_via_flux\<close>, from \<open>// Set output file path\<close> on: the file
  received is written below the consumer's directory through the real entry points.\<close>

definition write_file :: "world \<Rightarrow> string \<Rightarrow> string \<Rightarrow> string \<Rightarrow> event list \<times> int" where
  "write_file w consumer_path user_path file_data =
     (let file_path = concat_str w consumer_path user_path;
          odir = dirname w file_path;
          mk = (take 1 odir \<noteq> ''.'');
          ev_mk = (if mk then [Mkdir_as_needed odir] else [])
      in if mk \<and> mkdir_as_needed w odir < 0 then (ev_mk, -1)
         else
           (case fopen_real w file_path ''w'' of
              (ev_open, None) \<Rightarrow> (ev_mk @ ev_open, -1)
            | (ev_open, Some ofp) \<Rightarrow>
                if \<not> fwrite_complete w ofp file_data
                then (ev_mk @ ev_open @ [Fwrite ofp file_data], -1)
                else
                  (case fclose_real w ofp of
                     (ev_close, r) \<Rightarrow>
                       (ev_mk @ ev_open @ [Fwrite ofp file_data] @ ev_close,
                        if r = 0 then 0 else -1))))"

text \<open>The fetch: \<open>flux_rpc_pack\<close> of \<open>dyad.fetch\<close> to the owner, \<open>flux_rpc_get_raw\<close>,
  and the writing of the file.\<close>

definition fetch_file ::
  "world \<Rightarrow> string \<Rightarrow> string \<Rightarrow> uint32_t \<Rightarrow> event list \<times> int" where
  "fetch_file w consumer_path user_path owner_rank =
     (if \<not> flux_rpc_pack w owner_rank user_path then ([Flux_rpc_pack owner_rank user_path], -1)
      else
        (case flux_rpc_get_raw w owner_rank user_path of
           None \<Rightarrow> ([Flux_rpc_pack owner_rank user_path, Flux_rpc_get_raw], -1)
         | Some file_data \<Rightarrow>
             (case write_file w consumer_path user_path file_data of
                (ev, rc) \<Rightarrow> ([Flux_rpc_pack owner_rank user_path, Flux_rpc_get_raw] @ ev, rc))))"

definition subscribe_via_flux ::
  "build \<Rightarrow> world \<Rightarrow> dyad_sync_ctx_t \<Rightarrow> string \<Rightarrow> string \<Rightarrow> event list \<times> int outcome" where
  "subscribe_via_flux bld w c consumer_path user_path =
     (case gen_topic c user_path of
        Div_By_Zero \<Rightarrow> ([Subscribe_via_flux consumer_path user_path], Div_By_Zero)
      | Returns topic \<Rightarrow>
          if h c = None then ([Subscribe_via_flux consumer_path user_path], Returns (-1))
          else
            (case lookup_owner bld w c topic of
               (ev, None) \<Rightarrow> (Subscribe_via_flux consumer_path user_path # ev, Returns (-1))
             | (ev, Some owner_rank) \<Rightarrow>
                 if shared_storage c \<or> owner_rank = rank c
                 then (Subscribe_via_flux consumer_path user_path # ev, Returns 0)
                 else
                   (case fetch_file w consumer_path user_path owner_rank of
                      (ev', rc) \<Rightarrow>
                        (Subscribe_via_flux consumer_path user_path # ev @ ev', Returns rc))))"

subsection \<open>The publisher\<close>

definition publish_via_flux ::
  "build \<Rightarrow> world \<Rightarrow> dyad_sync_ctx_t \<Rightarrow> string \<Rightarrow> string \<Rightarrow> event list \<times> int outcome" where
  "publish_via_flux bld w c producer_path user_path =
     (case gen_topic c user_path of
        Div_By_Zero \<Rightarrow> ([Publish_via_flux producer_path user_path], Div_By_Zero)
      | Returns topic \<Rightarrow>
          if h c = None then ([Publish_via_flux producer_path user_path], Returns (-1))
          else if \<not> flux_kvs_txn_create w
          then ([Publish_via_flux producer_path user_path, Flux_kvs_txn_create], Returns (-1))
          else if \<not> flux_kvs_txn_pack w topic (rank c)
          then ([Publish_via_flux producer_path user_path, Flux_kvs_txn_create,
                 Flux_kvs_txn_pack topic (rank c)], Returns (-1))
          else if \<not> flux_kvs_commit w (kvs_namespace c)
          then ([Publish_via_flux producer_path user_path, Flux_kvs_txn_create,
                 Flux_kvs_txn_pack topic (rank c), Flux_kvs_commit (kvs_namespace c)],
                Returns (-1))
          else ([Publish_via_flux producer_path user_path, Flux_kvs_txn_create,
                 Flux_kvs_txn_pack topic (rank c), Flux_kvs_commit (kvs_namespace c),
                 Flux_future_wait_for], Returns 0))"

subsection \<open>Coordination around the real call\<close>

text \<open>The functions below run on a context that exists (they dereference \<open>ctx\<close>);
  they return their value together with the context as they leave it.\<close>

definition dyad_open_sync ::
  "build \<Rightarrow> world \<Rightarrow> dyad_sync_ctx_t \<Rightarrow> string option \<Rightarrow> string \<Rightarrow> string
     \<Rightarrow> event list \<times> (int \<times> dyad_sync_ctx_t) outcome" where
  "dyad_open_sync bld w c path dyad_path user_path =
     (let c1 = c\<lparr>reenter := False\<rparr>
      in case subscribe_via_flux bld w c1 dyad_path user_path of
           (ev, Div_By_Zero) \<Rightarrow> (Set_reenter False # ev, Div_By_Zero)
         | (ev, Returns rc) \<Rightarrow>
             (Set_reenter False # ev @ [Set_reenter True], Returns (rc, c1\<lparr>reenter := True\<rparr>)))"

definition dyad_close_sync ::
  "build \<Rightarrow> world \<Rightarrow> dyad_sync_ctx_t \<Rightarrow> string option \<Rightarrow> string \<Rightarrow> string
     \<Rightarrow> event list \<times> (int \<times> dyad_sync_ctx_t) outcome" where
  "dyad_close_sync bld w c path dyad_path user_path =
     (let c1 = c\<lparr>reenter := False\<rparr>
      in case publish_via_flux bld w c1 dyad_path user_path of
           (ev, Div_By_Zero) \<Rightarrow> (Set_reenter False # ev, Div_By_Zero)
         | (ev, Returns rc) \<Rightarrow>
             (Set_reenter False # ev @ [Set_reenter True], Returns (rc, c1\<lparr>reenter := True\<rparr>)))"

text \<open>The label \<open>done\<close> of \<open>open_sync\<close> and \<open>close_sync\<close>.\<close>

definition sync_done ::
  "event list \<Rightarrow> int \<Rightarrow> dyad_sync_ctx_t \<Rightarrow> event list \<times> (int \<times> dyad_sync_ctx_t) outcome" where
  "sync_done ev rc c =
     (if rc = 0 \<and> check c then (ev @ [Setenv DYAD_CHECK_ENV ''ok''], Returns (rc, c))
      else (ev, Returns (rc, c)))"

definition open_sync ::
  "build \<Rightarrow> world \<Rightarrow> dyad_sync_ctx_t \<Rightarrow> string option
     \<Rightarrow> event list \<times> (int \<times> dyad_sync_ctx_t) outcome" where
  "open_sync bld w c path =
     (case getenv w DYAD_PATH_CONS_ENV of
        None \<Rightarrow> sync_done [] 0 c
      | Some dyad_path \<Rightarrow>
          (case cmp_canonical_path_prefix w dyad_path path of
             None \<Rightarrow> sync_done [] 0 c
           | Some upath \<Rightarrow>
               (case dyad_open_sync bld w c path dyad_path upath of
                  (ev, Div_By_Zero) \<Rightarrow> (ev, Div_By_Zero)
                | (ev, Returns (rc, c')) \<Rightarrow> sync_done ev rc c')))"

definition close_sync ::
  "build \<Rightarrow> world \<Rightarrow> dyad_sync_ctx_t \<Rightarrow> string option
     \<Rightarrow> event list \<times> (int \<times> dyad_sync_ctx_t) outcome" where
  "close_sync bld w c path =
     (case getenv w DYAD_PATH_PROD_ENV of
        None \<Rightarrow> sync_done [] 0 c
      | Some dyad_path \<Rightarrow>
          (case cmp_canonical_path_prefix w dyad_path path of
             None \<Rightarrow> sync_done [] 0 c
           | Some upath \<Rightarrow>
               (case dyad_close_sync bld w c path dyad_path upath of
                  (ev, Div_By_Zero) \<Rightarrow> (ev, Div_By_Zero)
                | (ev, Returns (rc, c')) \<Rightarrow> sync_done ev rc c')))"

text \<open>\<open>sync_directory\<close>, compiled under \<open>DYAD_SYNC_DIR\<close>: the directory of the file is
  opened, flushed and closed through the real entry points, with \<open>reenter\<close> cleared
  meanwhile and put back afterwards.\<close>

definition sync_directory ::
  "world \<Rightarrow> dyad_sync_ctx_t \<Rightarrow> string \<Rightarrow> event list \<times> int \<times> dyad_sync_ctx_t" where
  "sync_directory w c path =
     (let odir = dirname w (take PATH_MAX path);
          saved = reenter c;
          (ev_open, odir_fd) = open_real w odir O_RDONLY 0;
          (ev, rc) =
            (if odir_fd < 0 then (ev_open, -1)
             else
               (case close_real w odir_fd of
                  (ev_close, r) \<Rightarrow>
                    (ev_open @ [Fsync odir_fd] @ ev_close,
                     if libc_fsync w odir_fd < 0 \<or> r < 0 then -1 else 0)))
      in (Set_reenter False # ev @ [Set_reenter saved], rc, c\<lparr>reenter := saved\<rparr>))"

subsection \<open>The interposed entry points\<close>

text \<open>
  The hooks take the thread's context pointer (\<open>None\<close> for \<open>NULL\<close>) and return the
  events of the call with its outcome: the value handed to the application and the
  context afterwards. A path or a stream that may be null is an \<open>option\<close>.
  (\<open>open\<close> is a keyword of the theory language, hence \<open>open_hook\<close>.)
\<close>

definition open_hook ::
  "build \<Rightarrow> world \<Rightarrow> dyad_sync_ctx_t option \<Rightarrow> string option \<Rightarrow> int \<Rightarrow> int
     \<Rightarrow> event list \<times> (int \<times> dyad_sync_ctx_t option) outcome" where
  "open_hook bld w ctx path oflag varg =
     (let mode = (if oflag AND O_CREAT \<noteq> 0 then varg else 0)
      in if dlsym_fails w ''open'' then ([], Returns (-1, ctx))
         else if mode \<noteq> O_RDONLY \<or> is_path_dir w path
         then ([Libc_open path oflag mode], Returns (libc_open w path oflag mode, ctx))
         else
           (case ctx of
              None \<Rightarrow> ([Libc_open path oflag mode], Returns (libc_open w path oflag mode, ctx))
            | Some c \<Rightarrow>
                if h c = None \<or> \<not> reenter c
                then ([Libc_open path oflag mode], Returns (libc_open w path oflag mode, ctx))
                else
                  (case open_sync bld w c path of
                     (ev, Div_By_Zero) \<Rightarrow> (ev, Div_By_Zero)
                   | (ev, Returns (rc, c')) \<Rightarrow>
                       (ev @ [Libc_open path oflag mode],
                        Returns (libc_open w path oflag mode, Some c')))))"

definition fopen ::
  "build \<Rightarrow> world \<Rightarrow> dyad_sync_ctx_t option \<Rightarrow> string option \<Rightarrow> string
     \<Rightarrow> event list \<times> (FILE option \<times> dyad_sync_ctx_t option) outcome" where
  "fopen bld w ctx path mode =
     (if dlsym_fails w ''fopen'' then ([], Returns (None, ctx))
      else if mode \<noteq> ''r'' \<or> is_path_dir w path
      then ([Libc_fopen path mode], Returns (libc_fopen w path mode, ctx))
      else
        (case ctx of
           None \<Rightarrow> ([Libc_fopen path mode], Returns (libc_fopen w path mode, ctx))
         | Some c \<Rightarrow>
             if h c = None \<or> \<not> reenter c \<or> path = None
             then ([Libc_fopen path mode], Returns (libc_fopen w path mode, ctx))
             else
               (case open_sync bld w c path of
                  (ev, Div_By_Zero) \<Rightarrow> (ev, Div_By_Zero)
                | (ev, Returns (rc, c')) \<Rightarrow>
                    (ev @ [Libc_fopen path mode],
                     Returns (libc_fopen w path mode, Some c')))))"

text \<open>The tests in front of the label \<open>real_call\<close> of \<open>close\<close> and \<open>fclose\<close>: the
  path of the descriptor when \<open>to_sync\<close> becomes true, \<open>None\<close> when it stays false.\<close>

definition to_sync_path ::
  "world \<Rightarrow> dyad_sync_ctx_t option \<Rightarrow> bool \<Rightarrow> int \<Rightarrow> string option" where
  "to_sync_path w ctx invalid fd =
     (case ctx of
        None \<Rightarrow> None
      | Some c \<Rightarrow>
          if invalid \<or> h c = None \<or> \<not> reenter c then None
          else if is_fd_dir w fd then None
          else get_path w fd)"

text \<open>The block under \<open>#if DYAD_SYNC_DIR\<close> of \<open>close\<close> and \<open>fclose\<close>.\<close>

definition sync_dir_step ::
  "build \<Rightarrow> world \<Rightarrow> dyad_sync_ctx_t option \<Rightarrow> string option
     \<Rightarrow> event list \<times> dyad_sync_ctx_t option" where
  "sync_dir_step bld w ctx to_sync =
     (case (to_sync, ctx) of
        (Some path, Some c) \<Rightarrow>
          if DYAD_SYNC_DIR bld
          then (case sync_directory w c path of (ev, r, c') \<Rightarrow> (ev, Some c'))
          else ([], ctx)
      | _ \<Rightarrow> ([], ctx))"

text \<open>The part that \<open>close\<close> and \<open>fclose\<close> share behind \<open>fsync (fd)\<close>, with the real
  call of either as the event \<open>ev_real\<close> and its value \<open>rc\<close>.\<close>

definition close_tail ::
  "build \<Rightarrow> world \<Rightarrow> dyad_sync_ctx_t option \<Rightarrow> string option \<Rightarrow> int \<Rightarrow> event \<Rightarrow> 'a
     \<Rightarrow> event list \<times> ('a \<times> dyad_sync_ctx_t option) outcome" where
  "close_tail bld w ctx to_sync fd ev_real rc =
     (let (ev_dir, ctx1) = sync_dir_step bld w ctx to_sync;
          (ev_fcntl, wronly) = is_wronly w fd
      in case (to_sync, ctx1) of
           (Some path, Some c) \<Rightarrow>
             if wronly = 1 then
               (case close_sync bld w c (Some path) of
                  (ev, Div_By_Zero) \<Rightarrow> (ev_dir @ ev_fcntl @ [ev_real] @ ev, Div_By_Zero)
                | (ev, Returns (r, c')) \<Rightarrow>
                    (ev_dir @ ev_fcntl @ [ev_real] @ ev, Returns (rc, Some c')))
             else (ev_dir @ ev_fcntl @ [ev_real], Returns (rc, ctx1))
         | _ \<Rightarrow> (ev_dir @ ev_fcntl @ [ev_real], Returns (rc, ctx1)))"

definition close ::
  "build \<Rightarrow> world \<Rightarrow> dyad_sync_ctx_t option \<Rightarrow> int
     \<Rightarrow> event list \<times> (int \<times> dyad_sync_ctx_t option) outcome" where
  "close bld w ctx fd =
     (if dlsym_fails w ''close'' then ([], Returns (-1, ctx))
      else
        let to_sync = to_sync_path w ctx (fd < 0) fd
        in case close_tail bld w ctx to_sync fd (Libc_close fd) (libc_close w fd) of
             (ev, r) \<Rightarrow> (Fsync fd # ev, r))"

text \<open>
  \<open>fclose\<close> calls \<open>fileno (fp)\<close> behind the label \<open>real_call\<close> whatever the stream is.
  With a null stream the tests in front of the label jump there at once,
  \<open>fflush (NULL)\<close> flushes every open stream, and \<open>fileno (NULL)\<close> reads through the
  null pointer: that has no defined behaviour (the process is killed by \<open>SIGSEGV\<close>), and
  the call ends there, in front of the real \<open>fclose\<close>.
\<close>

datatype 'a stream_use = Null_Stream | Stream_Ok 'a

definition fclose ::
  "build \<Rightarrow> world \<Rightarrow> dyad_sync_ctx_t option \<Rightarrow> FILE option
     \<Rightarrow> event list \<times> (int \<times> dyad_sync_ctx_t option) outcome stream_use" where
  "fclose bld w ctx fp =
     (if dlsym_fails w ''fclose'' then ([], Stream_Ok (Returns (EOF, ctx)))
      else if fp = None then ([Fflush fp], Null_Stream)
      else
        let to_sync = to_sync_path w ctx (fp = None) (fileno w fp);
            fd = fileno w fp
        in case close_tail bld w ctx to_sync fd (Libc_fclose fp) (libc_fclose w fp) of
             (ev, r) \<Rightarrow> (Fflush fp # Fsync fd # ev, Stream_Ok r))"

subsection \<open>Concrete runs\<close>

text \<open>
  A default context and build, and worlds for concrete runs. In \<open>world_plain\<close> every
  call succeeds, no environment variable is set, no path is managed, the transport opens
  with rank 1 and the key-value store names rank 0 as the owner of every file. The other
  worlds change what their names say: the transport cannot be opened; the environment
  sets \<open>DYAD_KEY_BINS=0\<close>; the consumer's directory is \<open>/cons\<close> and holds \<open>/cons/f\<close>;
  the producer's directory is \<open>/prod\<close> and descriptor 3 and stream 3 are \<open>/prod/f\<close>,
  open for writing only.
\<close>

definition ctx_default :: dyad_sync_ctx_t where
  "ctx_default =
     \<lparr>h = None, debug = False, check = False, reenter = True, initialized = False,
      shared_storage = False, sync_started = False, key_depth = 3, key_bins = 1024,
      rank = 0, kvs_namespace = None\<rparr>"

definition ctx_ready :: dyad_sync_ctx_t where
  "ctx_ready = ctx_default\<lparr>h := Some 7, rank := 1, initialized := True\<rparr>"

definition build_default :: build where
  "build_default = \<lparr>DYAD_PERFFLOW = False, DYAD_SYNC_DIR = False, DYAD_SYNC_START = False\<rparr>"

definition world_plain :: world where
  "world_plain =
     \<lparr>getenv = (\<lambda>n. None),
      malloc_fails = False,
      flux_open = Some 7,
      flux_get_rank = (\<lambda>hd. case hd of None \<Rightarrow> None | Some x \<Rightarrow> Some 1),
      dlsym_fails = (\<lambda>s. False),
      is_path_dir = (\<lambda>p. False),
      is_fd_dir = (\<lambda>fd. False),
      get_path = (\<lambda>fd. None),
      fileno = (\<lambda>fp. case fp of None \<Rightarrow> -1 | Some n \<Rightarrow> int n),
      fcntl_getfl = (\<lambda>fd. 1),
      libc_fsync = (\<lambda>fd. 0),
      cmp_canonical_path_prefix = (\<lambda>prefix path. None),
      concat_str = (\<lambda>a b. a @ ''/'' @ b),
      dirname = (\<lambda>p. ''/cons''),
      mkdir_as_needed = (\<lambda>d. 0),
      fwrite_complete = (\<lambda>fp d. True),
      libc_open = (\<lambda>p f m. 3),
      libc_fopen = (\<lambda>p m. Some 5),
      libc_close = (\<lambda>fd. 0),
      libc_fclose = (\<lambda>fp. 0),
      flux_kvs_lookup = (\<lambda>ns t. Owner 0),
      flux_rpc_pack = (\<lambda>r u. True),
      flux_rpc_get_raw = (\<lambda>r u. Some ''hello''),
      flux_kvs_txn_create = True,
      flux_kvs_txn_pack = (\<lambda>t r. True),
      flux_kvs_commit = (\<lambda>ns. True)\<rparr>"

definition world_no_flux :: world where
  "world_no_flux = world_plain\<lparr>flux_open := None, flux_get_rank := (\<lambda>hd. None)\<rparr>"

definition world_cons :: world where
  "world_cons =
     world_plain
       \<lparr>getenv := (\<lambda>n. if n = DYAD_PATH_CONS_ENV then Some ''/cons'' else None),
        cmp_canonical_path_prefix :=
          (\<lambda>prefix path. if prefix = ''/cons'' \<and> path = Some ''/cons/f'' then Some ''f'' else None)\<rparr>"

definition world_zero_bins :: world where
  "world_zero_bins =
     world_cons
       \<lparr>getenv := (\<lambda>n. if n = ''DYAD_KEY_BINS'' then Some ''0''
                        else if n = DYAD_PATH_CONS_ENV then Some ''/cons'' else None)\<rparr>"

definition world_prod :: world where
  "world_prod =
     world_plain
       \<lparr>getenv := (\<lambda>n. if n = DYAD_PATH_PROD_ENV then Some ''/prod'' else None),
        cmp_canonical_path_prefix :=
          (\<lambda>prefix path. if prefix = ''/prod'' \<and> path = Some ''/prod/f'' then Some ''f'' else None),
        get_path := (\<lambda>fd. if fd = 3 then Some ''/prod/f'' else None)\<rparr>"

definition world_prod_zero_bins :: world where
  "world_prod_zero_bins =
     world_prod
       \<lparr>getenv := (\<lambda>n. if n = ''DYAD_KEY_BINS'' then Some ''0''
                        else if n = DYAD_PATH_PROD_ENV then Some ''/prod'' else None)\<rparr>"

text \<open>A user path of \<open>PATH_MAX\<close> bytes, too long for any topic.\<close>

definition long_path :: string where
  "long_path = replicate PATH_MAX (CHR ''a'')"

subsection \<open>Predicates on runs\<close>

text \<open>Predicates on events, and the value of \<open>ctx->reenter\<close> that the calls of a
  run see: \<open>reenter_false_during r es\<close> says that, starting with \<open>reenter = r\<close>, every
  event of \<open>es\<close> other than a write to \<open>reenter\<close> happens while \<open>reenter\<close> is false.\<close>

definition is_Set_reenter :: "event \<Rightarrow> bool" where
  "is_Set_reenter e = (case e of Set_reenter b \<Rightarrow> True | _ \<Rightarrow> False)"

definition is_fetch_rpc :: "event \<Rightarrow> bool" where
  "is_fetch_rpc e = (case e of Flux_rpc_pack r u \<Rightarrow> True | _ \<Rightarrow> False)"

definition is_publish_event :: "event \<Rightarrow> bool" where
  "is_publish_event e =
     (case e of
        Publish_via_flux p u \<Rightarrow> True
      | Flux_kvs_txn_create \<Rightarrow> True
      | Flux_kvs_txn_pack t r \<Rightarrow> True
      | Flux_kvs_commit ns \<Rightarrow> True
      | Flux_future_wait_for \<Rightarrow> True
      | _ \<Rightarrow> False)"

definition is_Libc_open :: "event \<Rightarrow> bool" where
  "is_Libc_open e = (case e of Libc_open p f m \<Rightarrow> True | _ \<Rightarrow> False)"

definition is_Libc_fopen :: "event \<Rightarrow> bool" where
  "is_Libc_fopen e = (case e of Libc_fopen p m \<Rightarrow> True | _ \<Rightarrow> False)"

definition is_Libc_close :: "event \<Rightarrow> bool" where
  "is_Libc_close e = (case e of Libc_close fd \<Rightarrow> True | _ \<Rightarrow> False)"

definition is_Libc_fclose :: "event \<Rightarrow> bool" where
  "is_Libc_fclose e = (case e of Libc_fclose fp \<Rightarrow> True | _ \<Rightarrow> False)"

fun reenter_false_during :: "bool \<Rightarrow> event list \<Rightarrow> bool" where
  "reenter_false_during r [] = True"
| "reenter_false_during r (e # es) =
     (case e of
        Set_reenter b \<Rightarrow> reenter_false_during b es
      | _ \<Rightarrow> \<not> r \<and> reenter_false_during r es)"

text \<open>The context cannot lead \<open>gen_path_key\<close> into a division by zero.\<close>

definition bins_usable :: "dyad_sync_ctx_t option \<Rightarrow> bool" where
  "bins_usable ctx = (case ctx of None \<Rightarrow> True | Some c \<Rightarrow> key_bins c \<noteq> 0 \<or> key_depth c = 0)"

text \<open>An event that the lookup and the writing of a fetched file may produce.\<close>

definition plain_io :: "event \<Rightarrow> bool" where
  "plain_io e \<longleftrightarrow>
     \<not> is_Set_reenter e \<and> \<not> is_fetch_rpc e \<and> \<not> is_publish_event e \<and>
     \<not> is_Libc_open e \<and> \<not> is_Libc_close e"

text \<open>An event that the coordination inside a hook may produce: anything but a call of
  the real \<open>open\<close> or \<open>close\<close>.\<close>

definition coordination_event :: "event \<Rightarrow> bool" where
  "coordination_event e \<longleftrightarrow> \<not> is_Libc_open e \<and> \<not> is_Libc_close e"

section \<open>Properties of the hash-to-topic mapper\<close>

text \<open>The transcription reproduces the digest \<open>cbd8a7b341bd9b02 5b1e906a48ae1d19\<close> of
  \<open>hello\<close> under seed 0.\<close>

lemma MurmurHash3_x64_128_hello:
  "MurmurHash3_x64_128 ''hello'' 5 0 = (0x41bd9b02, 0xcbd8a7b3, 0x48ae1d19, 0x5b1e906a)"
  by code_simp

lemma seed_at_0: "57 + seeds ! 0 = seed_at 0"
  by (simp add: seed_at_def)

lemma seed_at_Suc: "seed_at i + seeds ! (Suc i mod 10) = seed_at (Suc i)"
  by (simp add: seed_at_def)

lemma seed_before_step: "seed_before d + seeds ! (d mod 10) = seed_at d"
  by (cases d) (simp_all add: seed_before_def seed_at_Suc seed_at_0 del: upt_Suc)

lemma bins_prefix_step:
  "d < depth \<Longrightarrow>
   bins_prefix p w d depth = (bin_at p w (seed_at d) @ ''.'') @ bins_prefix p w (Suc d) depth"
  by (simp add: bins_prefix_def upt_conv_Cons)

lemma bins_prefix_empty: "\<not> d < depth \<Longrightarrow> bins_prefix p w d depth = []"
  by (simp add: bins_prefix_def)

lemma bins_prefix_mono:
  "i \<le> j \<Longrightarrow> length (bins_prefix p w 0 i) \<le> length (bins_prefix p w 0 j)"
proof (induction j)
  case 0
  then show ?case by simp
next
  case (Suc j)
  then show ?case
    by (cases "i = Suc j") (simp_all add: bins_prefix_def)
qed

lemma would_overflow_iff: "would_overflow p len d w \<longleftrightarrow> len \<le> length (topic_key p d w)"
proof -
  have "len \<le> length (topic_key p d w)" if "i < d" and "len \<le> length (bins_prefix p w 0 (Suc i))" for i
  proof -
    have "length (bins_prefix p w 0 (Suc i)) \<le> length (bins_prefix p w 0 d)"
      using that(1) by (intro bins_prefix_mono) simp
    then show ?thesis
      using that(2) by (simp add: topic_key_def)
  qed
  then show ?thesis
    unfolding would_overflow_def by blast
qed

text \<open>The three ways one pass through the loop can go.\<close>

lemma loop_exit:
  assumes "\<not> d < depth" and "cx = length buf" and "cx < len"
  shows "gen_path_key_loop str len depth w d sd cx buf = key_result len (buf @ str)"
  using assms
  by (subst gen_path_key_loop.simps) (auto simp: snprintf_def key_result_def)

lemma loop_overflow:
  assumes "d < depth" and "w \<noteq> 0" and "cx = length buf" and "cx < len"
    and "fmt_bin (xor_fold (MurmurHash3_x64_128 str (length str) (sd + seeds ! (d mod 10))) mod w) = b"
    and "len \<le> length (buf @ b)"
  shows "gen_path_key_loop str len depth w d sd cx buf = Returns (-1, take (len - 1) (buf @ b))"
  using assms
  by (subst gen_path_key_loop.simps) (simp add: snprintf_def Let_def)

lemma loop_continue:
  assumes "d < depth" and "w \<noteq> 0" and "cx = length buf" and "cx < len"
    and "fmt_bin (xor_fold (MurmurHash3_x64_128 str (length str) (sd + seeds ! (d mod 10))) mod w) = b"
    and "length (buf @ b) < len"
  shows "gen_path_key_loop str len depth w d sd cx buf =
         gen_path_key_loop str len depth w (Suc d) (sd + seeds ! (d mod 10))
           (length (buf @ b)) (buf @ b)"
  using assms
  by (subst gen_path_key_loop.simps) (simp add: snprintf_def Let_def)

lemma loop_div_by_zero:
  assumes "d < depth"
  shows "gen_path_key_loop str len depth 0 d sd cx buf = Div_By_Zero"
  using assms
  by (subst gen_path_key_loop.simps) (simp add: Let_def)

lemma gen_path_key_loop_char:
  assumes "w \<noteq> 0" and "cx = length buf" and "cx < len"
  shows "gen_path_key_loop str len depth w d (seed_before d) cx buf =
           key_result len (buf @ bins_prefix str w d depth @ str)"
  using assms
proof (induction "depth - d" arbitrary: d cx buf)
  case 0
  then have "\<not> d < depth" by simp
  with 0 show ?case
    by (simp add: loop_exit bins_prefix_empty)
next
  case (Suc k)
  then have lt: "d < depth" by simp
  define b where "b = bin_at str w (seed_at d) @ ''.''"
  have b: "fmt_bin (xor_fold (MurmurHash3_x64_128 str (length str)
             (seed_before d + seeds ! (d mod 10))) mod w) = b"
    by (simp add: b_def seed_before_step bin_at_def fmt_bin_def)
  have full: "buf @ bins_prefix str w d depth @ str =
              (buf @ b) @ bins_prefix str w (Suc d) depth @ str"
    by (simp add: bins_prefix_step [OF lt] b_def)
  show ?case
  proof (cases "length (buf @ b) < len")
    case True
    have "seed_before (Suc d) = seed_at d"
      by (simp add: seed_before_def)
    then have sb: "seed_before d + seeds ! (d mod 10) = seed_before (Suc d)"
      by (simp add: seed_before_step)
    have "gen_path_key_loop str len depth w d (seed_before d) cx buf =
          gen_path_key_loop str len depth w (Suc d) (seed_before (Suc d))
            (length (buf @ b)) (buf @ b)"
      using loop_continue [OF lt Suc.prems(1) Suc.prems(2) Suc.prems(3) b True] sb by simp
    also have "\<dots> = key_result len ((buf @ b) @ bins_prefix str w (Suc d) depth @ str)"
      using Suc.hyps(2) Suc.prems(1) True by (intro Suc.hyps(1)) simp_all
    finally show ?thesis by (simp only: full)
  next
    case False
    then have ge: "len \<le> length (buf @ b)" by simp
    have "gen_path_key_loop str len depth w d (seed_before d) cx buf =
          Returns (-1, take (len - 1) (buf @ b))"
      by (rule loop_overflow [OF lt Suc.prems(1) Suc.prems(2) Suc.prems(3) b ge])
    moreover have "key_result len ((buf @ b) @ bins_prefix str w (Suc d) depth @ str) =
          Returns (-1, take (len - 1) (buf @ b))"
      using ge by (simp add: key_result_def)
    ultimately show ?thesis by (simp only: full)
  qed
qed

text \<open>The whole of \<open>gen_path_key\<close> on a buffer of at least one byte, for a width that is
  not zero: the key is written if it fits, and otherwise its first \<open>len - 1\<close> bytes.\<close>

lemma gen_path_key_char:
  assumes "w \<noteq> 0" and "0 < len"
  shows "gen_path_key p (Some b) len d w =
           (if length (topic_key p (unat d) w) < len
            then Returns (0, Some (topic_key p (unat d) w))
            else Returns (-1, Some (take (len - 1) (topic_key p (unat d) w))))"
proof -
  have "gen_path_key_loop p len (unat d) w 0 (seed_before 0) 0 [] =
        key_result len ([] @ bins_prefix p w 0 (unat d) @ p)"
    using assms by (intro gen_path_key_loop_char) simp_all
  then show ?thesis
    using assms by (simp add: gen_path_key_def seed_before_def key_result_def topic_key_def)
qed

lemma gen_path_key_div_by_zero:
  assumes "0 < len" and "d \<noteq> 0"
  shows "gen_path_key p (Some b) len d 0 = Div_By_Zero"
proof -
  have "0 < unat d"
    using assms(2) by (simp add: unat_gt_0)
  then show ?thesis
    using assms(1) by (simp add: gen_path_key_def loop_div_by_zero)
qed

lemma gen_path_key_depth_0:
  assumes "0 < len"
  shows "gen_path_key p (Some b) len 0 w = (case key_result len p of
            Returns (rc, k) \<Rightarrow> Returns (rc, Some k) | Div_By_Zero \<Rightarrow> Div_By_Zero)"
  using assms by (simp add: gen_path_key_def loop_exit)

text \<open>At depth 1 the seed is \<open>57 + seeds[0]\<close>, as the specification has it.\<close>

lemma spec_key_depth_1: "spec_key p 1 w = topic_key p 1 w"
  by (simp add: spec_key_def topic_key_def bins_prefix_def spec_seed_def seed_at_def)

text \<open>The bins of the empty path for 1024 bins, under the seeds of the first two levels
  and under \<open>57 + seeds[1]\<close>.\<close>

lemma bin_at_empty_104734: "bin_at '''' 1024 104734 = ''2cd''"
  by code_simp

lemma bin_at_empty_209415: "bin_at '''' 1024 209415 = ''18a''"
  by code_simp

lemma bin_at_empty_104738: "bin_at '''' 1024 104738 = ''12''"
  by code_simp

lemma seed_at_values: "seed_at 0 = 104734" "seed_at (Suc 0) = 209415"
  by (simp_all add: seed_at_def seeds_def)

lemma spec_seed_values: "spec_seed 0 = 104734" "spec_seed (Suc 0) = 104738"
  by (simp_all add: spec_seed_def seeds_def)

lemma upt_0_2: "[0..<2] = [0, 1]"
  by (simp add: upt_rec)

lemma topic_key_empty: "topic_key '''' 2 1024 = ''2cd.18a.''"
  by (simp add: topic_key_def bins_prefix_def upt_0_2 seed_at_values
      bin_at_empty_104734 bin_at_empty_209415)

lemma spec_key_empty: "spec_key '''' 2 1024 = ''2cd.12.''"
  by (simp add: spec_key_def upt_0_2 spec_seed_values bin_at_empty_104734 bin_at_empty_104738)

text \<open>
  Claim C1, as amended. For every path \<open>p\<close>, depth \<open>d\<close> and number of bins \<open>w \<ge> 1\<close>,
  \<open>gen_path_key\<close> succeeds exactly when the key fits the buffer with its nul, and then
  the buffer holds \<open>b\<^sub>0.b\<^sub>1.\<dots>.b\<^bsub>d-1\<^esub>.p\<close>, where \<open>b\<^sub>i\<close> is the lowercase hexadecimal
  text of \<open>(h\<^sub>0 XOR h\<^sub>1 XOR h\<^sub>2 XOR h\<^sub>3) mod w\<close> for the MurmurHash3 x64 128-bit hash of \<open>p\<close>
  under the seed \<open>57 + seeds[0] + \<dots> + seeds[i mod 10]\<close>: the seed accumulates over the
  levels, it is not \<open>57 + seeds[i mod 10]\<close> at each level on its own.
\<close>

theorem gen_path_key_writes_topic_key:
  assumes "w \<noteq> 0"
  shows "gen_path_key p (Some b) len d w = Returns (0, out) \<longleftrightarrow>
           out = Some (topic_key p (unat d) w) \<and> length (topic_key p (unat d) w) < len"
proof (cases "len = 0")
  case True
  then show ?thesis by (simp add: gen_path_key_def)
next
  case False
  then show ?thesis
    using assms by (auto simp: gen_path_key_char)
qed

theorem gen_path_key_writes_topic_key_witness:
  "(1024 :: uint32_t) \<noteq> 0 \<and>
   gen_path_key '''' (Some []) 4096 2 1024 = Returns (0, Some ''2cd.18a.'')"
proof -
  have w: "(1024 :: uint32_t) \<noteq> 0" by simp
  show ?thesis
    using gen_path_key_writes_topic_key [OF w, where p = "''''" and b = "[]" and len = 4096
        and d = 2 and out = "Some ''2cd.18a.''"]
    by (simp add: topic_key_empty)
qed

text \<open>
  Claim C1 as the specification states it fails from depth 2 on: for the empty path,
  depth 2 and 1024 bins the call succeeds with the key \<open>2cd.18a.\<close>, while seeding each
  level with \<open>57 + seeds[i mod 10]\<close> gives \<open>2cd.12.\<close>.
\<close>

theorem gen_path_key_spec_key_counterexample:
  "gen_path_key '''' (Some []) 4096 2 1024 = Returns (0, Some ''2cd.18a.'') \<and>
   spec_key '''' (unat (2 :: uint32_t)) 1024 = ''2cd.12.''"
  by (simp add: gen_path_key_char topic_key_empty spec_key_empty)

text \<open>
  Claim C7, as amended. For every input with \<open>w \<ge> 1\<close> bins, \<open>gen_path_key\<close> returns 0 or
  -1; when it returns 0 the buffer holds a nul-terminated key of at most \<open>len - 1\<close>
  bytes; and it returns -1 exactly when the buffer is null, \<open>len\<close> is 0, or some
  \<open>snprintf\<close> of a bin or of the path would overflow the buffer.
\<close>

theorem gen_path_key_returns:
  assumes "w \<noteq> 0"
  shows "case gen_path_key p path_key len d w of
           Div_By_Zero \<Rightarrow> False
         | Returns (rc, out) \<Rightarrow>
             (rc = 0 \<or> rc = -1) \<and>
             (rc = 0 \<longrightarrow> (\<exists>key. out = Some key \<and> length key \<le> len - 1 \<and> 0 < len)) \<and>
             (rc = -1 \<longleftrightarrow> path_key = None \<or> len = 0 \<or> would_overflow p len (unat d) w)"
proof (cases path_key)
  case None
  then show ?thesis by (simp add: gen_path_key_def)
next
  case (Some b)
  show ?thesis
  proof (cases "len = 0")
    case True
    with Some show ?thesis by (simp add: gen_path_key_def)
  next
    case False
    with Some assms show ?thesis
      by (auto simp: gen_path_key_char would_overflow_iff)
  qed
qed

theorem gen_path_key_returns_witness:
  "(16 :: uint32_t) \<noteq> 0 \<and>
   (case gen_path_key ''a'' (Some []) 6 2 16 of
      Div_By_Zero \<Rightarrow> False
    | Returns (rc, out) \<Rightarrow>
        (rc = 0 \<or> rc = -1) \<and>
        (rc = 0 \<longrightarrow> (\<exists>key. out = Some key \<and> length key \<le> 6 - 1 \<and> (0::nat) < 6)) \<and>
        (rc = -1 \<longleftrightarrow> Some [] = (None :: string option) \<or> (6::nat) = 0 \<or>
           would_overflow ''a'' 6 (unat (2 :: uint32_t)) 16))"
proof -
  have w: "(16 :: uint32_t) \<noteq> 0" by simp
  show ?thesis
    using gen_path_key_returns [OF w, where p = "''a''" and path_key = "Some []" and len = 6
        and d = 2] by simp
qed

text \<open>
  Claim C7 as stated, for every input, fails where the number of bins is 0 and the depth
  is not: the call reaches \<open>% width\<close> with \<open>width = 0\<close> and returns nothing.
\<close>

theorem gen_path_key_zero_bins_counterexample:
  "gen_path_key ''a'' (Some []) 16 1 0 = Div_By_Zero"
  by (simp add: gen_path_key_div_by_zero)

section \<open>Properties of the constructor\<close>

lemma dyad_sync_init_fresh:
  assumes "\<not> malloc_fails w"
  shows "\<exists>c. dyad_sync_init bld dflt w None = Done (Some c) \<and>
             initialized c \<and> reenter c \<and> h c = flux_open w \<and>
             rank c = (case flux_get_rank w (flux_open w) of Some r \<Rightarrow> r | None \<Rightarrow> rank dflt) \<and>
             key_depth c = (case getenv w ''DYAD_KEY_DEPTH'' of
                              Some e \<Rightarrow> word_of_int (atoi e) | None \<Rightarrow> 3) \<and>
             key_bins c = (case getenv w ''DYAD_KEY_BINS'' of
                             Some e \<Rightarrow> word_of_int (atoi e) | None \<Rightarrow> 1024)"
  using assms
  by (simp add: dyad_sync_init_def Let_def split: option.split)

lemma dyad_sync_init_again:
  "dyad_sync_init bld dflt w (Some c) = Done (Some (if initialized c then c else dflt))"
  by (simp add: dyad_sync_init_def)

text \<open>
  Claim C8, as amended. When \<open>dyad_sync_init\<close> completes on a thread without a context,
  \<open>initialized\<close> is true whatever the outcome of opening the transport; the handle is
  the one \<open>flux_open\<close> returned, so it is valid exactly when opening succeeded, and the
  rank is the transport's exactly when \<open>flux_get_rank\<close> succeeded and the default's
  otherwise. The invariant that \<open>initialized\<close> implies a valid handle therefore holds
  exactly when the transport could be opened.
\<close>

theorem dyad_sync_init_transport:
  assumes "\<not> malloc_fails w"
  shows "\<exists>c. dyad_sync_init bld dflt w None = Done (Some c) \<and>
             initialized c \<and> h c = flux_open w \<and>
             rank c = (case flux_get_rank w (flux_open w) of Some r \<Rightarrow> r | None \<Rightarrow> rank dflt) \<and>
             (initialized_implies_transport c \<longleftrightarrow> flux_open w \<noteq> None)"
proof -
  obtain c where c: "dyad_sync_init bld dflt w None = Done (Some c)" "initialized c"
      "h c = flux_open w"
      "rank c = (case flux_get_rank w (flux_open w) of Some r \<Rightarrow> r | None \<Rightarrow> rank dflt)"
    using dyad_sync_init_fresh [OF assms] by blast
  then show ?thesis
    by (simp add: initialized_implies_transport_def)
qed

theorem dyad_sync_init_transport_witness:
  "\<not> malloc_fails world_plain \<and>
   (\<exists>c. dyad_sync_init build_default ctx_default world_plain None = Done (Some c) \<and>
        initialized c \<and> h c = Some 7 \<and> rank c = 1 \<and> initialized_implies_transport c)"
proof -
  have m: "\<not> malloc_fails world_plain"
    by (simp add: world_plain_def)
  show ?thesis
    using dyad_sync_init_transport [OF m, of build_default ctx_default]
    by (simp add: world_plain_def)
qed

text \<open>
  Claim C8 as stated fails when the transport cannot be opened: the constructor
  completes with \<open>initialized\<close> set and a null handle, and the rank is the default's.
\<close>

theorem dyad_sync_init_no_flux_counterexample:
  "dyad_sync_init build_default ctx_default world_no_flux None =
     Done (Some (ctx_default\<lparr>initialized := True\<rparr>)) \<and>
   \<not> initialized_implies_transport (ctx_default\<lparr>initialized := True\<rparr>)"
  by (simp add: dyad_sync_init_def world_no_flux_def world_plain_def ctx_default_def
      build_default_def initialized_implies_transport_def)

section \<open>Topics of the subscriber and the publisher\<close>

lemma hex_of_nat_length: "0 < k \<Longrightarrow> n < 16 ^ k \<Longrightarrow> length (hex_of_nat n) \<le> k"
proof (induction n arbitrary: k rule: hex_of_nat.induct)
  case (1 n)
  show ?case
  proof (cases "n < 16")
    case True
    with 1(2) show ?thesis by (subst hex_of_nat.simps) simp
  next
    case False
    with 1(3) have k: "1 < k"
      by (cases "k = 1") (use 1(2) in auto)
    then obtain j where j: "k = Suc j" "0 < j"
      by (cases k) auto
    have "n div 16 < 16 ^ j"
      using 1(3) j by (simp add: less_mult_imp_div_less mult.commute)
    then have "length (hex_of_nat (n div 16)) \<le> j"
      using 1(1) [OF False j(2)] by simp
    with False j show ?thesis by (subst hex_of_nat.simps) simp
  qed
qed

lemma bin_at_length: "length (bin_at p w s) \<le> 8"
proof -
  have "unat (xor_fold (MurmurHash3_x64_128 p (length p) s) mod w) < 16 ^ 8"
    using unsigned_less [of "xor_fold (MurmurHash3_x64_128 p (length p) s) mod w", where ?'a = nat]
    by simp
  then show ?thesis
    unfolding bin_at_def by (intro hex_of_nat_length) simp_all
qed

lemma bins_prefix_length: "length (bins_prefix p w 0 d) \<le> 9 * d"
proof (induction d)
  case 0
  then show ?case by (simp add: bins_prefix_def)
next
  case (Suc d)
  have "length (bins_prefix p w 0 (Suc d)) = length (bins_prefix p w 0 d) + length (bin_at p w (seed_at d)) + 1"
    by (simp add: bins_prefix_def)
  with Suc bin_at_length [of p w "seed_at d"] show ?case by simp
qed

lemma topic_key_length_upper: "length (topic_key p d w) \<le> 9 * d + length p"
  using bins_prefix_length [of p w d] by (simp add: topic_key_def)

lemma topic_key_length_lower: "length p \<le> length (topic_key p d w)"
  by (simp add: topic_key_def)

lemma gen_topic_char:
  assumes "key_bins c \<noteq> 0"
  shows "gen_topic c up =
           Returns (if length (topic_key up (unat (key_depth c)) (key_bins c)) < PATH_MAX
                    then topic_key up (unat (key_depth c)) (key_bins c)
                    else take (PATH_MAX - 1) (topic_key up (unat (key_depth c)) (key_bins c)))"
  using assms by (simp add: gen_topic_def gen_path_key_char PATH_MAX_def)

lemma gen_topic_short:
  assumes "key_bins c \<noteq> 0" and "9 * unat (key_depth c) + length up < PATH_MAX"
  shows "gen_topic c up = Returns (topic_key up (unat (key_depth c)) (key_bins c))"
  using assms topic_key_length_upper [of up "unat (key_depth c)" "key_bins c"]
  by (simp add: gen_topic_char)

lemma gen_topic_depth_0:
  assumes "key_depth c = 0"
  shows "gen_topic c up = Returns (if length up < PATH_MAX then up else take (PATH_MAX - 1) up)"
  using assms by (simp add: gen_topic_def gen_path_key_depth_0 PATH_MAX_def key_result_def)

lemma gen_topic_div_by_zero:
  assumes "key_bins c = 0" and "key_depth c \<noteq> 0"
  shows "gen_topic c up = Div_By_Zero"
  using assms by (simp add: gen_topic_def gen_path_key_div_by_zero PATH_MAX_def)

lemma gen_topic_Div_By_Zero_iff:
  "gen_topic c up = Div_By_Zero \<longleftrightarrow> key_bins c = 0 \<and> key_depth c \<noteq> 0"
proof (cases "key_bins c = 0")
  case True
  then show ?thesis
    by (cases "key_depth c = 0") (simp_all add: gen_topic_depth_0 gen_topic_div_by_zero)
next
  case False
  then show ?thesis by (simp add: gen_topic_char)
qed

section \<open>Properties of the subscriber\<close>

text \<open>What lies in front of the first event with a property lies in front of every
  event with that property.\<close>

lemma before_first:
  assumes "tr = pre @ e # post" and "P e" and "x \<in> set (takeWhile (\<lambda>y. \<not> P y) tr)"
  shows "x \<in> set pre"
proof (cases "\<forall>y\<in>set pre. \<not> P y")
  case True
  with assms show ?thesis by (simp add: takeWhile_append2)
next
  case False
  with assms have "x \<in> set (takeWhile (\<lambda>y. \<not> P y) pre)"
    by (simp add: takeWhile_append)
  then show ?thesis by (rule set_takeWhileD [THEN conjunct1])
qed

lemma write_file_events: "\<forall>e \<in> set (fst (write_file w cp up data)). plain_io e"
  by (auto simp: write_file_def fopen_real_def fclose_real_def Let_def plain_io_def
      is_Set_reenter_def is_fetch_rpc_def is_publish_event_def is_Libc_open_def is_Libc_close_def
      split: if_splits option.splits prod.splits)

lemma fetch_file_events:
  "\<exists>rest. fst (fetch_file w cp up owner) = Flux_rpc_pack owner up # rest \<and>
          (\<forall>e \<in> set rest. plain_io e)"
proof (cases "flux_rpc_pack w owner up")
  case False
  then show ?thesis by (simp add: fetch_file_def)
next
  case True
  show ?thesis
  proof (cases "flux_rpc_get_raw w owner up")
    case None
    with True show ?thesis
      by (simp add: fetch_file_def plain_io_def is_Set_reenter_def is_fetch_rpc_def
          is_publish_event_def is_Libc_open_def is_Libc_close_def)
  next
    case (Some data)
    have "plain_io Flux_rpc_get_raw"
      by (simp add: plain_io_def is_Set_reenter_def is_fetch_rpc_def
          is_publish_event_def is_Libc_open_def is_Libc_close_def)
    with True Some write_file_events [of w cp up data] show ?thesis
      by (simp add: fetch_file_def split: prod.splits)
  qed
qed

lemma lookup_owner_events:
  "e \<in> set (fst (lookup_owner bld w c topic)) \<Longrightarrow>
     e = Flux_kvs_lookup (kvs_namespace c) topic \<or> e = Flux_kvs_lookup_get_unpack"
  by (auto simp: lookup_owner_def dyad_kvs_lookup_def split: if_splits lookup_reply.splits)

lemma lookup_owner_Owner:
  "flux_kvs_lookup w (kvs_namespace c) topic = Owner owner \<Longrightarrow>
   lookup_owner bld w c topic =
     ([Flux_kvs_lookup (kvs_namespace c) topic, Flux_kvs_lookup_get_unpack], Some owner)"
  by (simp add: lookup_owner_def dyad_kvs_lookup_def)

lemma subscribe_via_flux_Owner:
  assumes "gen_topic c up = Returns topic" and "h c \<noteq> None"
    and "flux_kvs_lookup w (kvs_namespace c) topic = Owner owner"
  shows "subscribe_via_flux bld w c cp up =
           (if shared_storage c \<or> owner = rank c
            then ([Subscribe_via_flux cp up, Flux_kvs_lookup (kvs_namespace c) topic,
                   Flux_kvs_lookup_get_unpack], Returns 0)
            else ([Subscribe_via_flux cp up, Flux_kvs_lookup (kvs_namespace c) topic,
                   Flux_kvs_lookup_get_unpack] @ fst (fetch_file w cp up owner),
                  Returns (snd (fetch_file w cp up owner))))"
  using assms
  by (auto simp: subscribe_via_flux_def lookup_owner_Owner split: prod.splits)

text \<open>
  Claim C3. In every run of \<open>subscribe_via_flux\<close> in which the wait-create lookup yields
  an owner: if \<open>shared_storage\<close> is set or the owner is the rank of the context, the
  function returns 0 and no \<open>dyad.fetch\<close> request is issued; a request is issued only when
  \<open>shared_storage\<close> is clear and the owner differs from the rank, it goes to the owner, and
  the lookup with the extraction of the owner's rank lies in front of it.
\<close>

theorem subscribe_fetch_only_after_owner:
  assumes "gen_topic c up = Returns topic" and "h c \<noteq> None"
    and "flux_kvs_lookup w (kvs_namespace c) topic = Owner owner"
  shows "(shared_storage c \<or> owner = rank c \<longrightarrow>
            snd (subscribe_via_flux bld w c cp up) = Returns 0 \<and>
            (\<forall>e \<in> set (fst (subscribe_via_flux bld w c cp up)). \<not> is_fetch_rpc e)) \<and>
         (\<forall>e \<in> set (fst (subscribe_via_flux bld w c cp up)).
            is_fetch_rpc e \<longrightarrow>
              \<not> shared_storage c \<and> owner \<noteq> rank c \<and> e = Flux_rpc_pack owner up) \<and>
         (\<forall>pre e post.
            fst (subscribe_via_flux bld w c cp up) = pre @ e # post \<and> is_fetch_rpc e \<longrightarrow>
              Flux_kvs_lookup (kvs_namespace c) topic \<in> set pre \<and>
              Flux_kvs_lookup_get_unpack \<in> set pre)"
proof -
  let ?tr = "fst (subscribe_via_flux bld w c cp up)"
  let ?head = "[Subscribe_via_flux cp up, Flux_kvs_lookup (kvs_namespace c) topic,
                Flux_kvs_lookup_get_unpack]"
  note sub = subscribe_via_flux_Owner [OF assms, of bld cp]
  have own: "snd (subscribe_via_flux bld w c cp up) = Returns 0 \<and> (\<forall>e \<in> set ?tr. \<not> is_fetch_rpc e)"
    if "shared_storage c \<or> owner = rank c"
    using that sub by (auto simp: is_fetch_rpc_def)
  have rpc: "\<not> shared_storage c \<and> owner \<noteq> rank c \<and> e = Flux_rpc_pack owner up"
    if "e \<in> set ?tr" and "is_fetch_rpc e" for e
  proof (cases "shared_storage c \<or> owner = rank c")
    case True
    with own that show ?thesis by blast
  next
    case False
    with sub that have "e \<in> set (fst (fetch_file w cp up owner))"
      by (auto simp: is_fetch_rpc_def)
    with that(2) False show ?thesis
      using fetch_file_events [of w cp up owner] by (auto simp: plain_io_def)
  qed
  have head: "set ?head \<subseteq> set (takeWhile (\<lambda>y. \<not> is_fetch_rpc y) ?tr)"
    using sub by (auto simp: is_fetch_rpc_def)
  have order: "Flux_kvs_lookup (kvs_namespace c) topic \<in> set pre \<and>
               Flux_kvs_lookup_get_unpack \<in> set pre"
    if "?tr = pre @ e # post" and "is_fetch_rpc e" for pre e post
    using before_first [OF that(1), of is_fetch_rpc, OF that(2)] head by auto
  from own rpc order show ?thesis by blast
qed

theorem subscribe_fetch_only_after_owner_witness:
  "gen_topic ctx_ready ''f'' = Returns (topic_key ''f'' 3 1024) \<and>
   h ctx_ready \<noteq> None \<and>
   flux_kvs_lookup world_cons (kvs_namespace ctx_ready) (topic_key ''f'' 3 1024) = Owner 0 \<and>
   fst (subscribe_via_flux build_default world_cons ctx_ready ''/cons'' ''f'') =
     [Subscribe_via_flux ''/cons'' ''f'', Flux_kvs_lookup None (topic_key ''f'' 3 1024),
      Flux_kvs_lookup_get_unpack] @
     Flux_rpc_pack 0 ''f'' #
     [Flux_rpc_get_raw, Mkdir_as_needed ''/cons'', Libc_fopen (Some ''/cons/f'') ''w'',
      Fwrite 5 ''hello'', Libc_fclose (Some 5)] \<and>
   is_fetch_rpc (Flux_rpc_pack 0 ''f'') \<and>
   \<not> shared_storage ctx_ready \<and> 0 \<noteq> rank ctx_ready \<and>
   Flux_kvs_lookup_get_unpack \<in>
     set [Subscribe_via_flux ''/cons'' ''f'', Flux_kvs_lookup None (topic_key ''f'' 3 1024),
          Flux_kvs_lookup_get_unpack]"
proof -
  have t: "gen_topic ctx_ready ''f'' = Returns (topic_key ''f'' 3 1024)"
    using gen_topic_short [of ctx_ready "''f''"]
    by (simp add: ctx_ready_def ctx_default_def PATH_MAX_def)
  have hd: "h ctx_ready \<noteq> None"
    by (simp add: ctx_ready_def)
  have l: "flux_kvs_lookup world_cons (kvs_namespace ctx_ready) (topic_key ''f'' 3 1024) = Owner 0"
    by (simp add: world_cons_def world_plain_def)
  have c: "\<not> shared_storage ctx_ready" "0 \<noteq> rank ctx_ready" "kvs_namespace ctx_ready = None"
    by (simp_all add: ctx_ready_def ctx_default_def)
  have tr: "fst (subscribe_via_flux build_default world_cons ctx_ready ''/cons'' ''f'') =
     [Subscribe_via_flux ''/cons'' ''f'', Flux_kvs_lookup None (topic_key ''f'' 3 1024),
      Flux_kvs_lookup_get_unpack] @
     Flux_rpc_pack 0 ''f'' #
     [Flux_rpc_get_raw, Mkdir_as_needed ''/cons'', Libc_fopen (Some ''/cons/f'') ''w'',
      Fwrite 5 ''hello'', Libc_fclose (Some 5)]"
    unfolding subscribe_via_flux_Owner [OF t hd l]
    using c by (simp add: fetch_file_def write_file_def fopen_real_def fclose_real_def
        world_cons_def world_plain_def)
  have rpc: "is_fetch_rpc (Flux_rpc_pack 0 ''f'')"
    by (simp add: is_fetch_rpc_def)
  from subscribe_fetch_only_after_owner [OF t hd l, of build_default "''/cons''"] tr rpc
  have "Flux_kvs_lookup_get_unpack \<in>
     set [Subscribe_via_flux ''/cons'' ''f'', Flux_kvs_lookup None (topic_key ''f'' 3 1024),
          Flux_kvs_lookup_get_unpack]"
    by blast
  with t hd l tr rpc c show ?thesis by blast
qed

section \<open>Re-entrancy around the coordination\<close>

text \<open>In a build without \<open>DYAD_PERFFLOW\<close> no request goes out at all unless the lookup
  has yielded an owner.\<close>

lemma fetch_needs_owner:
  assumes "\<not> DYAD_PERFFLOW bld"
    and "Flux_rpc_pack r u \<in> set (fst (subscribe_via_flux bld w c cp up))"
  shows "\<exists>topic. gen_topic c up = Returns topic \<and> h c \<noteq> None \<and>
           flux_kvs_lookup w (kvs_namespace c) topic = Owner r \<and>
           \<not> shared_storage c \<and> r \<noteq> rank c \<and> u = up"
proof (cases "gen_topic c up")
  case Div_By_Zero
  with assms(2) show ?thesis by (simp add: subscribe_via_flux_def)
next
  case (Returns topic)
  show ?thesis
  proof (cases "h c = None")
    case True
    with Returns assms(2) show ?thesis by (simp add: subscribe_via_flux_def)
  next
    case False
    show ?thesis
    proof (cases "flux_kvs_lookup w (kvs_namespace c) topic")
      case Lookup_Null
      with Returns False assms show ?thesis
        by (auto simp: subscribe_via_flux_def lookup_owner_def)
    next
      case Unpack_Fails
      with Returns False assms show ?thesis
        by (auto simp: subscribe_via_flux_def lookup_owner_def)
    next
      case (Owner owner)
      note sub = subscribe_via_flux_Owner [OF Returns False Owner, of bld cp]
      show ?thesis
      proof (cases "shared_storage c \<or> owner = rank c")
        case True
        with sub assms(2) show ?thesis by auto
      next
        case no: False
        obtain rest where rest: "fst (fetch_file w cp up owner) = Flux_rpc_pack owner up # rest"
            "\<forall>e \<in> set rest. plain_io e"
          using fetch_file_events [of w cp up owner] by blast
        have "\<not> plain_io (Flux_rpc_pack r u)"
          by (simp add: plain_io_def is_fetch_rpc_def)
        with rest sub no assms(2) have "r = owner \<and> u = up" by auto
        with Returns False Owner no show ?thesis by simp
      qed
    qed
  qed
qed

lemma lookup_owner_plain: "\<forall>e \<in> set (fst (lookup_owner bld w c topic)). plain_io e"
  by (auto simp: lookup_owner_def dyad_kvs_lookup_def plain_io_def is_Set_reenter_def
      is_fetch_rpc_def is_publish_event_def is_Libc_open_def is_Libc_close_def
      split: if_splits lookup_reply.splits)

lemma subscribe_via_flux_events:
  "\<exists>rest. fst (subscribe_via_flux bld w c cp up) = Subscribe_via_flux cp up # rest \<and>
          (\<forall>e \<in> set rest. \<not> is_Set_reenter e \<and> \<not> is_publish_event e \<and>
                           \<not> is_Libc_open e \<and> \<not> is_Libc_close e)"
proof (cases "gen_topic c up")
  case Div_By_Zero
  then show ?thesis by (simp add: subscribe_via_flux_def)
next
  case (Returns topic)
  show ?thesis
  proof (cases "h c = None")
    case True
    with Returns show ?thesis by (simp add: subscribe_via_flux_def)
  next
    case False
    obtain ev res where lo: "lookup_owner bld w c topic = (ev, res)"
      by (cases "lookup_owner bld w c topic")
    have ev: "\<forall>e \<in> set ev. plain_io e"
      using lookup_owner_plain [of bld w c topic] lo by simp
    show ?thesis
    proof (cases res)
      case None
      with Returns False lo ev show ?thesis
        by (auto simp: subscribe_via_flux_def plain_io_def)
    next
      case (Some owner)
      obtain rest where rest: "fst (fetch_file w cp up owner) = Flux_rpc_pack owner up # rest"
          "\<forall>e \<in> set rest. plain_io e"
        using fetch_file_events [of w cp up owner] by blast
      have "\<not> is_Set_reenter (Flux_rpc_pack owner up) \<and>
            \<not> is_publish_event (Flux_rpc_pack owner up) \<and>
            \<not> is_Libc_open (Flux_rpc_pack owner up) \<and>
            \<not> is_Libc_close (Flux_rpc_pack owner up)"
        by (simp add: is_Set_reenter_def is_publish_event_def is_Libc_open_def
            is_Libc_close_def)
      with Returns False lo ev Some rest show ?thesis
        by (auto simp: subscribe_via_flux_def plain_io_def split: prod.splits)
    qed
  qed
qed

lemma publish_via_flux_events:
  "\<exists>rest. fst (publish_via_flux bld w c pp up) = Publish_via_flux pp up # rest \<and>
          (\<forall>e \<in> set rest. \<not> is_Set_reenter e \<and> \<not> is_Libc_open e \<and> \<not> is_Libc_close e \<and>
                           \<not> is_Libc_fopen e \<and> \<not> is_Libc_fclose e)"
  by (cases "gen_topic c up")
    (auto simp: publish_via_flux_def is_Set_reenter_def is_Libc_open_def is_Libc_close_def
      is_Libc_fopen_def is_Libc_fclose_def)

lemma subscribe_via_flux_returns:
  "snd (subscribe_via_flux bld w c cp up) = Div_By_Zero \<longleftrightarrow> key_bins c = 0 \<and> key_depth c \<noteq> 0"
proof (cases "gen_topic c up")
  case Div_By_Zero
  then show ?thesis
    using gen_topic_Div_By_Zero_iff [of c up] by (simp add: subscribe_via_flux_def)
next
  case (Returns topic)
  then show ?thesis
    using gen_topic_Div_By_Zero_iff [of c up]
    by (auto simp: subscribe_via_flux_def split: prod.splits option.splits)
qed

lemma publish_via_flux_returns:
  "snd (publish_via_flux bld w c pp up) = Div_By_Zero \<longleftrightarrow> key_bins c = 0 \<and> key_depth c \<noteq> 0"
  using gen_topic_Div_By_Zero_iff [of c up]
  by (cases "gen_topic c up") (auto simp: publish_via_flux_def)

lemma reenter_false_during_append:
  assumes "\<forall>e \<in> set ev. \<not> is_Set_reenter e"
  shows "reenter_false_during False (ev @ rest) = reenter_false_during False rest"
  using assms
proof (induction ev)
  case Nil
  then show ?case by simp
next
  case (Cons e ev)
  then show ?case by (cases e) (simp_all add: is_Set_reenter_def)
qed

lemma sync_bracket:
  assumes "fst r = mark # rest" and "\<forall>e \<in> set rest. \<not> is_Set_reenter e" and "\<not> is_Set_reenter mark"
  shows "reenter_false_during r0
           (fst (case r of
                   (ev, Div_By_Zero) \<Rightarrow> (Set_reenter False # ev, Div_By_Zero)
                 | (ev, Returns rc) \<Rightarrow>
                     (Set_reenter False # ev @ [Set_reenter True], Returns (rc, c'))))"
proof -
  have all: "\<forall>e \<in> set (fst r). \<not> is_Set_reenter e"
    using assms by simp
  obtain ev res where r: "r = (ev, res)" by (cases r)
  show ?thesis
  proof (cases res)
    case Div_By_Zero
    with r all reenter_false_during_append [of ev "[]"] show ?thesis by simp
  next
    case (Returns rc)
    with r all reenter_false_during_append [of ev "[Set_reenter True]"] show ?thesis by simp
  qed
qed

text \<open>
  Claim C6. In every call of \<open>dyad_open_sync\<close> and of \<open>dyad_close_sync\<close> the first event
  clears \<open>reenter\<close>, the nested \<open>subscribe_via_flux\<close> or \<open>publish_via_flux\<close> comes next,
  and every call of the run happens while \<open>reenter\<close> is false; the call returns unless
  \<open>gen_path_key\<close> divides by zero, and whenever it returns, with whatever value,
  \<open>reenter\<close> is true in the context and nothing else in it has changed.
\<close>

theorem dyad_sync_reenter:
  "(\<exists>rest. fst (dyad_open_sync bld w c path dp up) =
             Set_reenter False # Subscribe_via_flux dp up # rest) \<and>
   reenter_false_during (reenter c) (fst (dyad_open_sync bld w c path dp up)) \<and>
   (case snd (dyad_open_sync bld w c path dp up) of
      Returns (rc, c') \<Rightarrow> c' = c\<lparr>reenter := True\<rparr>
    | Div_By_Zero \<Rightarrow> key_bins c = 0 \<and> key_depth c \<noteq> 0) \<and>
   (\<exists>rest. fst (dyad_close_sync bld w c path dp up) =
             Set_reenter False # Publish_via_flux dp up # rest) \<and>
   reenter_false_during (reenter c) (fst (dyad_close_sync bld w c path dp up)) \<and>
   (case snd (dyad_close_sync bld w c path dp up) of
      Returns (rc, c') \<Rightarrow> c' = c\<lparr>reenter := True\<rparr>
    | Div_By_Zero \<Rightarrow> key_bins c = 0 \<and> key_depth c \<noteq> 0)"
proof -
  let ?c1 = "c\<lparr>reenter := False\<rparr>"
  obtain rs where s: "fst (subscribe_via_flux bld w ?c1 dp up) = Subscribe_via_flux dp up # rs"
      "\<forall>e \<in> set rs. \<not> is_Set_reenter e"
    using subscribe_via_flux_events [of bld w ?c1 dp up] by blast
  obtain rp where p: "fst (publish_via_flux bld w ?c1 dp up) = Publish_via_flux dp up # rp"
      "\<forall>e \<in> set rp. \<not> is_Set_reenter e"
    using publish_via_flux_events [of bld w ?c1 dp up] by blast
  have o1: "\<exists>rest. fst (dyad_open_sync bld w c path dp up) =
             Set_reenter False # Subscribe_via_flux dp up # rest"
    using s(1) by (auto simp: dyad_open_sync_def split: prod.splits outcome.splits)
  have o2: "reenter_false_during (reenter c) (fst (dyad_open_sync bld w c path dp up))"
    unfolding dyad_open_sync_def Let_def
    by (rule sync_bracket [OF s]) (simp add: is_Set_reenter_def)
  have o3: "case snd (dyad_open_sync bld w c path dp up) of
      Returns (rc, c') \<Rightarrow> c' = c\<lparr>reenter := True\<rparr>
    | Div_By_Zero \<Rightarrow> key_bins c = 0 \<and> key_depth c \<noteq> 0"
    using subscribe_via_flux_returns [of bld w ?c1 dp up]
    by (auto simp: dyad_open_sync_def split: prod.splits outcome.splits)
  have c1: "\<exists>rest. fst (dyad_close_sync bld w c path dp up) =
             Set_reenter False # Publish_via_flux dp up # rest"
    using p(1) by (auto simp: dyad_close_sync_def split: prod.splits outcome.splits)
  have c2: "reenter_false_during (reenter c) (fst (dyad_close_sync bld w c path dp up))"
    unfolding dyad_close_sync_def Let_def
    by (rule sync_bracket [OF p]) (simp add: is_Set_reenter_def)
  have c3: "case snd (dyad_close_sync bld w c path dp up) of
      Returns (rc, c') \<Rightarrow> c' = c\<lparr>reenter := True\<rparr>
    | Div_By_Zero \<Rightarrow> key_bins c = 0 \<and> key_depth c \<noteq> 0"
    using publish_via_flux_returns [of bld w ?c1 dp up]
    by (auto simp: dyad_close_sync_def split: prod.splits outcome.splits)
  from o1 o2 o3 c1 c2 c3 show ?thesis by blast
qed

section \<open>Key generation failures in the subscriber and the publisher\<close>

lemma gen_path_key_failure:
  assumes "gen_path_key up (Some b) len d w = Returns (rc, out)" and "rc \<noteq> 0" and "0 < len"
  shows "rc = -1 \<and> out = Some (take (len - 1) (topic_key up (unat d) w)) \<and>
         len \<le> length (topic_key up (unat d) w)"
proof (cases "w = 0")
  case False
  with assms show ?thesis
    by (auto simp: gen_path_key_char split: if_splits)
next
  case True
  show ?thesis
  proof (cases "d = 0")
    case False
    with True assms show ?thesis by (simp add: gen_path_key_div_by_zero)
  next
    case d: True
    with assms show ?thesis
      by (auto simp: gen_path_key_depth_0 key_result_def topic_key_def bins_prefix_def
          split: if_splits)
  qed
qed

lemma gen_topic_of_gen_path_key:
  "gen_path_key up (Some []) PATH_MAX (key_depth c) (key_bins c) = Returns (rc, Some topic) \<Longrightarrow>
   gen_topic c up = Returns topic"
  by (simp add: gen_topic_def)

text \<open>
  Claim C10. \<open>subscribe_via_flux\<close> and \<open>publish_via_flux\<close> do not look at the value
  that \<open>gen_path_key\<close> returns. Whenever key generation fails for a user path, the key
  does not fit the buffer of \<open>PATH_MAX\<close> bytes and the buffer holds its first
  \<open>PATH_MAX - 1\<close> bytes; with a transport handle, the subscriber goes on to the lookup
  in the key-value store under that truncated topic, and the publisher creates the
  transaction, packs the truncated topic with its rank and commits it, as far as the
  transport lets each step succeed.
\<close>

theorem key_failure_ignored:
  assumes "gen_path_key up (Some []) PATH_MAX (key_depth c) (key_bins c) = Returns (rc, Some topic)"
    and "rc \<noteq> 0" and "h c \<noteq> None"
  shows "topic = take (PATH_MAX - 1) (topic_key up (unat (key_depth c)) (key_bins c)) \<and>
         PATH_MAX \<le> length (topic_key up (unat (key_depth c)) (key_bins c)) \<and>
         (\<exists>rest. fst (subscribe_via_flux bld w c cp up) =
                   Subscribe_via_flux cp up # Flux_kvs_lookup (kvs_namespace c) topic # rest) \<and>
         (\<exists>rest. fst (publish_via_flux bld w c pp up) =
                   Publish_via_flux pp up # Flux_kvs_txn_create # rest \<and>
                 (flux_kvs_txn_create w \<longrightarrow>
                    (\<exists>rest'. rest = Flux_kvs_txn_pack topic (rank c) # rest' \<and>
                       (flux_kvs_txn_pack w topic (rank c) \<longrightarrow>
                          (\<exists>rest''. rest' = Flux_kvs_commit (kvs_namespace c) # rest'')))))"
proof -
  have len: "0 < PATH_MAX" by (simp add: PATH_MAX_def)
  note f = gen_path_key_failure [OF assms(1) assms(2) len]
  have t: "gen_topic c up = Returns topic"
    by (rule gen_topic_of_gen_path_key [OF assms(1)])
  have s: "\<exists>rest. fst (subscribe_via_flux bld w c cp up) =
                   Subscribe_via_flux cp up # Flux_kvs_lookup (kvs_namespace c) topic # rest"
    using t assms(3)
    by (auto simp: subscribe_via_flux_def lookup_owner_def dyad_kvs_lookup_def
        split: prod.splits option.splits lookup_reply.splits)
  have p: "\<exists>rest. fst (publish_via_flux bld w c pp up) =
                   Publish_via_flux pp up # Flux_kvs_txn_create # rest \<and>
                 (flux_kvs_txn_create w \<longrightarrow>
                    (\<exists>rest'. rest = Flux_kvs_txn_pack topic (rank c) # rest' \<and>
                       (flux_kvs_txn_pack w topic (rank c) \<longrightarrow>
                          (\<exists>rest''. rest' = Flux_kvs_commit (kvs_namespace c) # rest''))))"
    using t assms(3) by (auto simp: publish_via_flux_def)
  from f s p show ?thesis by simp
qed

theorem key_failure_ignored_witness:
  "gen_path_key long_path (Some []) PATH_MAX (key_depth ctx_ready) (key_bins ctx_ready) =
     Returns (-1, Some (take (PATH_MAX - 1) (topic_key long_path 3 1024))) \<and>
   (-1 :: int) \<noteq> 0 \<and> h ctx_ready \<noteq> None \<and>
   (\<exists>rest. fst (subscribe_via_flux build_default world_cons ctx_ready ''/cons'' long_path) =
             Subscribe_via_flux ''/cons'' long_path #
             Flux_kvs_lookup None (take (PATH_MAX - 1) (topic_key long_path 3 1024)) # rest) \<and>
   (\<exists>rest. fst (publish_via_flux build_default world_cons ctx_ready ''/prod'' long_path) =
             Publish_via_flux ''/prod'' long_path # Flux_kvs_txn_create #
             Flux_kvs_txn_pack (take (PATH_MAX - 1) (topic_key long_path 3 1024)) 1 #
             Flux_kvs_commit None # rest)"
proof -
  have c: "key_depth ctx_ready = 3" "key_bins ctx_ready = 1024" "rank ctx_ready = 1"
      "kvs_namespace ctx_ready = None"
    by (simp_all add: ctx_ready_def ctx_default_def)
  have "PATH_MAX \<le> length (topic_key long_path 3 1024)"
    using topic_key_length_lower [of long_path 3 1024] by (simp add: long_path_def)
  then have g: "gen_path_key long_path (Some []) PATH_MAX (key_depth ctx_ready) (key_bins ctx_ready) =
     Returns (-1, Some (take (PATH_MAX - 1) (topic_key long_path 3 1024)))"
    by (simp add: c gen_path_key_char PATH_MAX_def)
  have n: "(-1 :: int) \<noteq> 0" by simp
  have hd: "h ctx_ready \<noteq> None" by (simp add: ctx_ready_def)
  have tx: "flux_kvs_txn_create world_cons"
      "flux_kvs_txn_pack world_cons (take (PATH_MAX - 1) (topic_key long_path 3 1024)) 1"
    by (simp_all add: world_cons_def world_plain_def)
  from key_failure_ignored [OF g n hd, where bld = build_default and w = world_cons
      and cp = "''/cons''" and pp = "''/prod''"]
  show ?thesis
    using g hd tx by (auto simp: c)
qed

section \<open>Properties of the coordination functions\<close>

lemma write_file_fopen:
  "length (filter is_Libc_fopen (fst (write_file w cp up data))) \<le> 1 \<and>
   (\<forall>e \<in> set (fst (write_file w cp up data)).
      is_Libc_fopen e \<longrightarrow> e = Libc_fopen (Some (concat_str w cp up)) ''w'')"
  by (auto simp: write_file_def fopen_real_def fclose_real_def Let_def is_Libc_fopen_def
      split: if_splits option.splits prod.splits)

lemma fetch_file_fopen:
  "length (filter is_Libc_fopen (fst (fetch_file w cp up owner))) \<le> 1 \<and>
   (\<forall>e \<in> set (fst (fetch_file w cp up owner)).
      is_Libc_fopen e \<longrightarrow> e = Libc_fopen (Some (concat_str w cp up)) ''w'')"
proof (cases "flux_rpc_pack w owner up")
  case False
  then show ?thesis by (simp add: fetch_file_def is_Libc_fopen_def)
next
  case True
  show ?thesis
  proof (cases "flux_rpc_get_raw w owner up")
    case None
    with True show ?thesis by (simp add: fetch_file_def is_Libc_fopen_def)
  next
    case (Some data)
    have k: "\<not> is_Libc_fopen (Flux_rpc_pack owner up)" "\<not> is_Libc_fopen Flux_rpc_get_raw"
      by (simp_all add: is_Libc_fopen_def)
    from Some True write_file_fopen [of w cp up data] k show ?thesis
      by (auto simp: fetch_file_def split: prod.splits)
  qed
qed

lemma lookup_owner_fopen: "filter is_Libc_fopen (fst (lookup_owner bld w c topic)) = []"
  by (auto simp: lookup_owner_def dyad_kvs_lookup_def is_Libc_fopen_def
      split: if_splits lookup_reply.splits)

lemma subscribe_via_flux_fopen:
  "length (filter is_Libc_fopen (fst (subscribe_via_flux bld w c cp up))) \<le> 1 \<and>
   (\<forall>e \<in> set (fst (subscribe_via_flux bld w c cp up)).
      is_Libc_fopen e \<longrightarrow> e = Libc_fopen (Some (concat_str w cp up)) ''w'')"
proof (cases "gen_topic c up")
  case Div_By_Zero
  then show ?thesis by (simp add: subscribe_via_flux_def is_Libc_fopen_def)
next
  case (Returns topic)
  show ?thesis
  proof (cases "h c = None")
    case True
    with Returns show ?thesis by (simp add: subscribe_via_flux_def is_Libc_fopen_def)
  next
    case False
    obtain ev res where lo: "lookup_owner bld w c topic = (ev, res)"
      by (cases "lookup_owner bld w c topic")
    have ev: "filter is_Libc_fopen ev = []"
      using lookup_owner_fopen [of bld w c topic] lo by simp
    then have ev': "\<forall>e \<in> set ev. \<not> is_Libc_fopen e"
      by (simp add: filter_empty_conv)
    show ?thesis
    proof (cases res)
      case None
      with Returns False lo ev ev' show ?thesis
        by (auto simp: subscribe_via_flux_def is_Libc_fopen_def)
    next
      case (Some owner)
      have m: "\<not> is_Libc_fopen (Subscribe_via_flux cp up)"
        by (simp add: is_Libc_fopen_def)
      from Some Returns False lo ev ev' m fetch_file_fopen [of w cp up owner] show ?thesis
        by (auto simp: subscribe_via_flux_def split: prod.splits)
    qed
  qed
qed

text \<open>What \<open>open_sync\<close> and \<open>close_sync\<close> leave behind: the context they were given,
  if it had \<open>reenter\<close> set.\<close>

lemma sync_done_char:
  "sync_done ev rc c = (ev @ (if rc = 0 \<and> check c then [Setenv DYAD_CHECK_ENV ''ok''] else []),
                        Returns (rc, c))"
  by (simp add: sync_done_def)

lemma dyad_open_sync_char:
  assumes "key_bins c \<noteq> 0 \<or> key_depth c = 0"
  shows "\<exists>rc. dyad_open_sync bld w c path dp up =
           (Set_reenter False # fst (subscribe_via_flux bld w (c\<lparr>reenter := False\<rparr>) dp up) @
              [Set_reenter True],
            Returns (rc, c\<lparr>reenter := True\<rparr>))"
proof -
  have "snd (subscribe_via_flux bld w (c\<lparr>reenter := False\<rparr>) dp up) \<noteq> Div_By_Zero"
    using assms subscribe_via_flux_returns [of bld w "c\<lparr>reenter := False\<rparr>" dp up] by auto
  then show ?thesis
    by (cases "subscribe_via_flux bld w (c\<lparr>reenter := False\<rparr>) dp up")
      (auto simp: dyad_open_sync_def split: outcome.splits)
qed

lemma dyad_close_sync_char:
  assumes "key_bins c \<noteq> 0 \<or> key_depth c = 0"
  shows "\<exists>rc. dyad_close_sync bld w c path dp up =
           (Set_reenter False # fst (publish_via_flux bld w (c\<lparr>reenter := False\<rparr>) dp up) @
              [Set_reenter True],
            Returns (rc, c\<lparr>reenter := True\<rparr>))"
proof -
  have "snd (publish_via_flux bld w (c\<lparr>reenter := False\<rparr>) dp up) \<noteq> Div_By_Zero"
    using assms publish_via_flux_returns [of bld w "c\<lparr>reenter := False\<rparr>" dp up] by auto
  then show ?thesis
    by (cases "publish_via_flux bld w (c\<lparr>reenter := False\<rparr>) dp up")
      (auto simp: dyad_close_sync_def split: outcome.splits)
qed

lemma open_sync_char:
  assumes "key_bins c \<noteq> 0 \<or> key_depth c = 0" and "reenter c"
  shows "\<exists>ev rc. open_sync bld w c path = (ev, Returns (rc, c)) \<and>
           (\<forall>e \<in> set ev. coordination_event e) \<and>
           length (filter is_Libc_fopen ev) \<le> 1 \<and>
           (\<forall>e \<in> set ev. is_Libc_fopen e \<longrightarrow> (\<exists>p. e = Libc_fopen p ''w''))"
proof (cases "getenv w DYAD_PATH_CONS_ENV")
  case None
  then show ?thesis
    by (simp add: open_sync_def sync_done_char coordination_event_def is_Libc_open_def
        is_Libc_close_def is_Libc_fopen_def)
next
  case (Some dp)
  show ?thesis
  proof (cases "cmp_canonical_path_prefix w dp path")
    case None
    with Some show ?thesis
      by (simp add: open_sync_def sync_done_char coordination_event_def is_Libc_open_def
          is_Libc_close_def is_Libc_fopen_def)
  next
    case up: (Some up)
    let ?c1 = "c\<lparr>reenter := False\<rparr>"
    obtain rc where d: "dyad_open_sync bld w c path dp up =
           (Set_reenter False # fst (subscribe_via_flux bld w ?c1 dp up) @ [Set_reenter True],
            Returns (rc, c\<lparr>reenter := True\<rparr>))"
      using dyad_open_sync_char [OF assms(1)] by blast
    have c: "c\<lparr>reenter := True\<rparr> = c"
      using assms(2) by simp
    obtain rest where s: "fst (subscribe_via_flux bld w ?c1 dp up) = Subscribe_via_flux dp up # rest"
        "\<forall>e \<in> set rest. \<not> is_Libc_open e \<and> \<not> is_Libc_close e"
      using subscribe_via_flux_events [of bld w ?c1 dp up] by blast
    have co: "\<forall>e \<in> set (fst (subscribe_via_flux bld w ?c1 dp up)). coordination_event e"
      using s by (simp add: coordination_event_def is_Libc_open_def is_Libc_close_def)
    note f = subscribe_via_flux_fopen [of bld w ?c1 dp up]
    have k: "coordination_event (Set_reenter b)" "coordination_event (Setenv n v)"
        "\<not> is_Libc_fopen (Set_reenter b)" "\<not> is_Libc_fopen (Setenv n v)" for b n v
      by (simp_all add: coordination_event_def is_Libc_open_def is_Libc_close_def
          is_Libc_fopen_def)
    from Some up d c co f k show ?thesis
      by (auto simp: open_sync_def sync_done_char)
  qed
qed

lemma close_sync_char:
  assumes "key_bins c \<noteq> 0 \<or> key_depth c = 0" and "reenter c"
  shows "\<exists>ev rc. close_sync bld w c path = (ev, Returns (rc, c)) \<and>
           (\<forall>e \<in> set ev. coordination_event e \<and> \<not> is_Libc_fclose e)"
proof (cases "getenv w DYAD_PATH_PROD_ENV")
  case None
  then show ?thesis
    by (simp add: close_sync_def sync_done_char coordination_event_def is_Libc_open_def
        is_Libc_close_def is_Libc_fclose_def)
next
  case (Some dp)
  show ?thesis
  proof (cases "cmp_canonical_path_prefix w dp path")
    case None
    with Some show ?thesis
      by (simp add: close_sync_def sync_done_char coordination_event_def is_Libc_open_def
          is_Libc_close_def is_Libc_fclose_def)
  next
    case up: (Some up)
    let ?c1 = "c\<lparr>reenter := False\<rparr>"
    obtain rc where d: "dyad_close_sync bld w c path dp up =
           (Set_reenter False # fst (publish_via_flux bld w ?c1 dp up) @ [Set_reenter True],
            Returns (rc, c\<lparr>reenter := True\<rparr>))"
      using dyad_close_sync_char [OF assms(1)] by blast
    have c: "c\<lparr>reenter := True\<rparr> = c"
      using assms(2) by simp
    obtain rest where s: "fst (publish_via_flux bld w ?c1 dp up) = Publish_via_flux dp up # rest"
        "\<forall>e \<in> set rest. \<not> is_Libc_open e \<and> \<not> is_Libc_close e \<and> \<not> is_Libc_fclose e"
      using publish_via_flux_events [of bld w ?c1 dp up] by blast
    have co: "\<forall>e \<in> set (fst (publish_via_flux bld w ?c1 dp up)).
                coordination_event e \<and> \<not> is_Libc_fclose e"
      using s by (simp add: coordination_event_def is_Libc_open_def is_Libc_close_def
          is_Libc_fclose_def)
    have k: "coordination_event (Set_reenter b)" "coordination_event (Setenv n v)"
        "\<not> is_Libc_fclose (Set_reenter b)" "\<not> is_Libc_fclose (Setenv n v)" for b n v
      by (simp_all add: coordination_event_def is_Libc_open_def is_Libc_close_def
          is_Libc_fclose_def)
    from Some up d c co k show ?thesis
      by (auto simp: close_sync_def sync_done_char)
  qed
qed

section \<open>Properties of the interposed entry points\<close>

lemma open_hook_forwards:
  assumes "bins_usable ctx" and "\<not> dlsym_fails w ''open''"
  shows "\<exists>ev. open_hook bld w ctx path oflag varg =
           (ev @ [Libc_open path oflag (if oflag AND O_CREAT \<noteq> 0 then varg else 0)],
            Returns (libc_open w path oflag (if oflag AND O_CREAT \<noteq> 0 then varg else 0), ctx)) \<and>
           (\<forall>e \<in> set ev. \<not> is_Libc_open e)"
proof (cases ctx)
  case None
  with assms(2) show ?thesis
    by (simp add: open_hook_def Let_def)
next
  case (Some c)
  show ?thesis
  proof (cases "h c = None \<or> \<not> reenter c")
    case True
    with Some assms(2) show ?thesis
      by (simp add: open_hook_def Let_def)
  next
    case False
    then have r: "reenter c" by simp
    have b: "key_bins c \<noteq> 0 \<or> key_depth c = 0"
      using assms(1) Some by (simp add: bins_usable_def)
    obtain ev rc where s: "open_sync bld w c path = (ev, Returns (rc, c))"
        "\<forall>e \<in> set ev. coordination_event e"
      using open_sync_char [OF b r, of bld w path] by blast
    from s(2) have "\<forall>e \<in> set ev. \<not> is_Libc_open e"
      by (simp add: coordination_event_def)
    with Some False s(1) assms(2) show ?thesis
      by (simp add: open_hook_def Let_def)
  qed
qed

lemma fopen_forwards:
  assumes "bins_usable ctx" and "\<not> dlsym_fails w ''fopen''"
  shows "\<exists>ev. fopen bld w ctx path mode =
           (ev @ [Libc_fopen path mode], Returns (libc_fopen w path mode, ctx)) \<and>
           length (filter is_Libc_fopen ev) \<le> 1 \<and>
           (\<forall>e \<in> set ev. is_Libc_fopen e \<longrightarrow> (\<exists>p. e = Libc_fopen p ''w''))"
proof (cases ctx)
  case None
  with assms(2) show ?thesis
    by (simp add: fopen_def)
next
  case (Some c)
  show ?thesis
  proof (cases "h c = None \<or> \<not> reenter c \<or> path = None")
    case True
    with Some assms(2) show ?thesis
      by (simp add: fopen_def)
  next
    case False
    then have r: "reenter c" by simp
    have b: "key_bins c \<noteq> 0 \<or> key_depth c = 0"
      using assms(1) Some by (simp add: bins_usable_def)
    obtain ev rc where s: "open_sync bld w c path = (ev, Returns (rc, c))"
        "length (filter is_Libc_fopen ev) \<le> 1"
        "\<forall>e \<in> set ev. is_Libc_fopen e \<longrightarrow> (\<exists>p. e = Libc_fopen p ''w'')"
      using open_sync_char [OF b r, of bld w path] by blast
    with Some False assms(2) show ?thesis
      by (simp add: fopen_def)
  qed
qed

lemma to_sync_path_Some:
  "to_sync_path w ctx invalid fd = Some path \<Longrightarrow>
   \<exists>c. ctx = Some c \<and> reenter c \<and> h c \<noteq> None \<and> \<not> invalid"
  by (auto simp: to_sync_path_def split: option.splits if_splits)

lemma sync_directory_char:
  assumes "sync_directory w c path = (ev, rc, c')"
  shows "c' = c" and "\<forall>e \<in> set ev. \<not> is_publish_event e \<and> \<not> is_Libc_fclose e"
  using assms
  by (auto simp: sync_directory_def open_real_def close_real_def Let_def is_publish_event_def
      is_Libc_fclose_def split: prod.splits if_splits)

lemma close_sync_events:
  "\<forall>e \<in> set (fst (close_sync bld w c path)). \<not> is_Libc_close e \<and> \<not> is_Libc_fclose e"
proof (cases "getenv w DYAD_PATH_PROD_ENV")
  case None
  then show ?thesis
    by (simp add: close_sync_def sync_done_char is_Libc_close_def is_Libc_fclose_def)
next
  case (Some dp)
  show ?thesis
  proof (cases "cmp_canonical_path_prefix w dp path")
    case None
    with Some show ?thesis
      by (simp add: close_sync_def sync_done_char is_Libc_close_def is_Libc_fclose_def)
  next
    case up: (Some up)
    let ?c1 = "c\<lparr>reenter := False\<rparr>"
    obtain rest where s: "fst (publish_via_flux bld w ?c1 dp up) = Publish_via_flux dp up # rest"
        "\<forall>e \<in> set rest. \<not> is_Libc_close e \<and> \<not> is_Libc_fclose e"
      using publish_via_flux_events [of bld w ?c1 dp up] by blast
    have p: "\<forall>e \<in> set (fst (publish_via_flux bld w ?c1 dp up)).
               \<not> is_Libc_close e \<and> \<not> is_Libc_fclose e"
      using s by (simp add: is_Libc_close_def is_Libc_fclose_def)
    have k: "\<not> is_Libc_close (Set_reenter b)" "\<not> is_Libc_close (Setenv n v)"
        "\<not> is_Libc_fclose (Set_reenter b)" "\<not> is_Libc_fclose (Setenv n v)" for b n v
      by (simp_all add: is_Libc_close_def is_Libc_fclose_def)
    obtain ev res where pr: "publish_via_flux bld w ?c1 dp up = (ev, res)"
      by (cases "publish_via_flux bld w ?c1 dp up")
    with Some up p k show ?thesis
      by (cases res) (auto simp: close_sync_def dyad_close_sync_def sync_done_char)
  qed
qed

lemma sync_dir_step_char:
  assumes "sync_dir_step bld w ctx ts = (ev, ctx1)"
  shows "ctx1 = ctx"
    and "\<forall>e \<in> set ev. \<not> is_publish_event e \<and> \<not> is_Libc_fclose e"
    and "\<not> DYAD_SYNC_DIR bld \<Longrightarrow> ev = []"
  using assms
  by (auto simp: sync_dir_step_def split: option.splits prod.splits if_splits
      dest: sync_directory_char)

lemma is_wronly_events: "\<exists>wronly. is_wronly w fd = ([Fcntl_getfl fd], wronly)"
  by (simp add: is_wronly_def Let_def)

text \<open>The events of \<open>close\<close> and \<open>fclose\<close> behind \<open>fsync\<close>: the real call, with nothing
  of the publisher in front of it and no further real close behind it.\<close>

lemma close_tail_trace:
  "\<exists>ev ev'. fst (close_tail bld w ctx ts fd ev_real rc) = ev @ ev_real # ev' \<and>
     (\<forall>e \<in> set ev. \<not> is_publish_event e \<and> \<not> is_Libc_fclose e \<and>
                     (\<not> DYAD_SYNC_DIR bld \<longrightarrow> \<not> is_Libc_close e)) \<and>
     (\<forall>e \<in> set ev'. \<not> is_Libc_close e \<and> \<not> is_Libc_fclose e)"
proof -
  obtain evd ctx1 where d: "sync_dir_step bld w ctx ts = (evd, ctx1)"
    by (cases "sync_dir_step bld w ctx ts")
  note dc = sync_dir_step_char [OF d]
  obtain wronly where f: "is_wronly w fd = ([Fcntl_getfl fd], wronly)"
    using is_wronly_events by blast
  have fce: "\<not> is_publish_event (Fcntl_getfl fd)" "\<not> is_Libc_fclose (Fcntl_getfl fd)"
      "\<not> is_Libc_close (Fcntl_getfl fd)"
    by (simp_all add: is_publish_event_def is_Libc_fclose_def is_Libc_close_def)
  have front: "\<forall>e \<in> set (evd @ [Fcntl_getfl fd]). \<not> is_publish_event e \<and> \<not> is_Libc_fclose e \<and>
                     (\<not> DYAD_SYNC_DIR bld \<longrightarrow> \<not> is_Libc_close e)"
    using dc(2) dc(3) fce by auto
  define publ where "publ =
       (case (ts, ctx) of
          (Some path, Some c) \<Rightarrow> if wronly = 1 then fst (close_sync bld w c (Some path)) else []
        | _ \<Rightarrow> [])"
  have publ_ev: "\<forall>e \<in> set publ. \<not> is_Libc_close e \<and> \<not> is_Libc_fclose e"
    using close_sync_events [of bld w] by (auto simp: publ_def split: option.splits)
  have "fst (close_tail bld w ctx ts fd ev_real rc) = (evd @ [Fcntl_getfl fd]) @ ev_real # publ"
    using d dc(1) f
    by (auto simp: close_tail_def publ_def split: option.splits prod.splits outcome.splits)
  with front publ_ev show ?thesis by blast
qed

lemma close_tail_returns:
  assumes "bins_usable ctx" and "ts = to_sync_path w ctx invalid fd'"
  shows "snd (close_tail bld w ctx ts fd ev_real rc) = Returns (rc, ctx)"
proof (cases ts)
  case None
  then show ?thesis
    by (auto simp: close_tail_def split: prod.splits option.splits dest: sync_dir_step_char(1))
next
  case (Some path)
  then obtain c where c: "ctx = Some c" "reenter c"
    using to_sync_path_Some [of w ctx invalid fd' path] assms(2) by auto
  have b: "key_bins c \<noteq> 0 \<or> key_depth c = 0"
    using assms(1) c by (simp add: bins_usable_def)
  obtain ev r where s: "close_sync bld w c (Some path) = (ev, Returns (r, c))"
    using close_sync_char [OF b c(2), of bld w "Some path"] by blast
  obtain evd ctx1 where d: "sync_dir_step bld w ctx ts = (evd, ctx1)"
    by (cases "sync_dir_step bld w ctx ts")
  from Some c s d sync_dir_step_char(1) [OF d] show ?thesis
    by (auto simp: close_tail_def split: prod.splits)
qed

text \<open>A hook that finds \<open>reenter\<close> cleared goes straight to the real call: input and
  output of the coordinator that arrives at a hook passes through.\<close>

lemma pass_through_without_reenter:
  assumes "\<not> reenter c"
  shows "\<not> dlsym_fails w ''open'' \<Longrightarrow>
           open_hook bld w (Some c) path oflag varg =
             ([Libc_open path oflag (if oflag AND O_CREAT \<noteq> 0 then varg else 0)],
              Returns (libc_open w path oflag (if oflag AND O_CREAT \<noteq> 0 then varg else 0),
                       Some c))"
    and "\<not> dlsym_fails w ''fopen'' \<Longrightarrow>
           fopen bld w (Some c) path mode =
             ([Libc_fopen path mode], Returns (libc_fopen w path mode, Some c))"
    and "\<not> dlsym_fails w ''close'' \<Longrightarrow>
           close bld w (Some c) fd =
             ([Fsync fd, Fcntl_getfl fd, Libc_close fd], Returns (libc_close w fd, Some c))"
    and "\<not> dlsym_fails w ''fclose'' \<Longrightarrow> fp \<noteq> None \<Longrightarrow>
           fclose bld w (Some c) fp =
             ([Fflush fp, Fsync (fileno w fp), Fcntl_getfl (fileno w fp), Libc_fclose fp],
              Stream_Ok (Returns (libc_fclose w fp, Some c)))"
  using assms
  by (simp_all add: open_hook_def fopen_def close_def fclose_def to_sync_path_def
      close_tail_def sync_dir_step_def is_wronly_def Let_def)

lemma close_forwards:
  assumes "bins_usable ctx" and "\<not> dlsym_fails w ''close''"
  shows "\<exists>ev ev'. close bld w ctx fd =
           (ev @ Libc_close fd # ev', Returns (libc_close w fd, ctx)) \<and>
           (\<forall>e \<in> set ev'. \<not> is_Libc_close e) \<and>
           (\<not> DYAD_SYNC_DIR bld \<longrightarrow> (\<forall>e \<in> set ev. \<not> is_Libc_close e))"
proof -
  let ?ts = "to_sync_path w ctx (fd < 0) fd"
  let ?t = "close_tail bld w ctx ?ts fd (Libc_close fd) (libc_close w fd)"
  obtain ev ev' where t: "fst ?t = ev @ Libc_close fd # ev'"
      "\<forall>e \<in> set ev. \<not> DYAD_SYNC_DIR bld \<longrightarrow> \<not> is_Libc_close e"
      "\<forall>e \<in> set ev'. \<not> is_Libc_close e"
    using close_tail_trace [of bld w ctx ?ts fd "Libc_close fd" "libc_close w fd"] by blast
  have r: "snd ?t = Returns (libc_close w fd, ctx)"
    by (rule close_tail_returns [OF assms(1) refl])
  have "close bld w ctx fd = ((Fsync fd # ev) @ Libc_close fd # ev', Returns (libc_close w fd, ctx))"
    using assms(2) t(1) r by (auto simp: close_def split: prod.splits)
  moreover have "\<not> DYAD_SYNC_DIR bld \<longrightarrow> (\<forall>e \<in> set (Fsync fd # ev). \<not> is_Libc_close e)"
    using t(2) by (simp add: is_Libc_close_def)
  ultimately show ?thesis
    using t(3) by blast
qed

lemma fclose_forwards:
  assumes "bins_usable ctx" and "\<not> dlsym_fails w ''fclose''" and "fp \<noteq> None"
  shows "\<exists>ev ev'. fclose bld w ctx fp =
           (ev @ Libc_fclose fp # ev', Stream_Ok (Returns (libc_fclose w fp, ctx))) \<and>
           (\<forall>e \<in> set (ev @ ev'). \<not> is_Libc_fclose e)"
proof -
  let ?ts = "to_sync_path w ctx (fp = None) (fileno w fp)"
  let ?t = "close_tail bld w ctx ?ts (fileno w fp) (Libc_fclose fp) (libc_fclose w fp)"
  obtain ev ev' where t: "fst ?t = ev @ Libc_fclose fp # ev'"
      "\<forall>e \<in> set ev. \<not> is_Libc_fclose e"
      "\<forall>e \<in> set ev'. \<not> is_Libc_fclose e"
    using close_tail_trace [of bld w ctx ?ts "fileno w fp" "Libc_fclose fp" "libc_fclose w fp"]
    by blast
  have r: "snd ?t = Returns (libc_fclose w fp, ctx)"
    by (rule close_tail_returns [OF assms(1) refl])
  have "fclose bld w ctx fp =
          ((Fflush fp # Fsync (fileno w fp) # ev) @ Libc_fclose fp # ev',
           Stream_Ok (Returns (libc_fclose w fp, ctx)))"
    using assms(2) assms(3) t(1) r by (auto simp: fclose_def Let_def split: prod.splits)
  moreover have "\<forall>e \<in> set ((Fflush fp # Fsync (fileno w fp) # ev) @ ev'). \<not> is_Libc_fclose e"
    using t(2) t(3) by (auto simp: is_Libc_fclose_def)
  ultimately show ?thesis by blast
qed

text \<open>With a null stream the interposed \<open>fclose\<close> ends in \<open>fileno (NULL)\<close>, in front of
  the real \<open>fclose\<close>.\<close>

lemma fclose_null_stream:
  assumes "\<not> dlsym_fails w ''fclose''"
  shows "fclose bld w ctx None = ([Fflush None], Null_Stream)"
  using assms by (simp add: fclose_def)

text \<open>
  The forwarding of the hooks. In every call of the interposed \<open>open\<close>, \<open>fopen\<close>,
  \<open>close\<close> or \<open>fclose\<close> in which the next symbol is resolved, the context cannot lead
  \<open>gen_path_key\<close> into a division by zero and, for \<open>fclose\<close>, the stream is not null,
  the hook calls the real function of the same name and returns exactly the value of
  that call, whatever the subscriber or the publisher did, and it leaves the context as
  it was. The real \<open>open\<close> gets the path and the flags of the application, and as mode
  the argument behind the flags under \<open>O_CREAT\<close> and 0 otherwise. In \<open>open\<close> and
  \<open>fopen\<close> the forwarded call is the last event. It is the only call of the real
  function in \<open>open\<close> and in \<open>fclose\<close>, and in \<open>close\<close> unless the build has
  \<open>DYAD_SYNC_DIR\<close>; in \<open>fopen\<close> the subscriber calls the real \<open>fopen\<close> at most once
  more, in mode \<open>"w"\<close>, to write the file it fetched.
\<close>

lemma hooks_forward:
  assumes "bins_usable ctx"
  shows "(\<not> dlsym_fails w ''open'' \<longrightarrow>
            (\<exists>ev. open_hook bld w ctx path oflag varg =
               (ev @ [Libc_open path oflag (if oflag AND O_CREAT \<noteq> 0 then varg else 0)],
                Returns (libc_open w path oflag (if oflag AND O_CREAT \<noteq> 0 then varg else 0),
                         ctx)) \<and>
               (\<forall>e \<in> set ev. \<not> is_Libc_open e))) \<and>
         (\<not> dlsym_fails w ''fopen'' \<longrightarrow>
            (\<exists>ev. fopen bld w ctx path mode =
               (ev @ [Libc_fopen path mode], Returns (libc_fopen w path mode, ctx)) \<and>
               length (filter is_Libc_fopen ev) \<le> 1 \<and>
               (\<forall>e \<in> set ev. is_Libc_fopen e \<longrightarrow> (\<exists>p. e = Libc_fopen p ''w'')))) \<and>
         (\<not> dlsym_fails w ''close'' \<longrightarrow>
            (\<exists>ev ev'. close bld w ctx fd =
               (ev @ Libc_close fd # ev', Returns (libc_close w fd, ctx)) \<and>
               (\<forall>e \<in> set ev'. \<not> is_Libc_close e) \<and>
               (\<not> DYAD_SYNC_DIR bld \<longrightarrow> (\<forall>e \<in> set ev. \<not> is_Libc_close e)))) \<and>
         (\<not> dlsym_fails w ''fclose'' \<and> fp \<noteq> None \<longrightarrow>
            (\<exists>ev ev'. fclose bld w ctx fp =
               (ev @ Libc_fclose fp # ev', Stream_Ok (Returns (libc_fclose w fp, ctx))) \<and>
               (\<forall>e \<in> set (ev @ ev'). \<not> is_Libc_fclose e)))"
  using open_hook_forwards [OF assms, of w bld path oflag varg]
    fopen_forwards [OF assms, of w bld path mode]
    close_forwards [OF assms, of w bld fd]
    fclose_forwards [OF assms, of w fp bld]
  by blast

lemma ctx_ready_fields:
  "h ctx_ready = Some 7" "reenter ctx_ready" "\<not> check ctx_ready" "rank ctx_ready = 1"
  "kvs_namespace ctx_ready = None" "\<not> shared_storage ctx_ready"
  "key_depth ctx_ready = 3" "key_bins ctx_ready = 1024"
  "ctx_ready\<lparr>reenter := True\<rparr> = ctx_ready"
  by (simp_all add: ctx_ready_def ctx_default_def)

lemma gen_topic_ready: "gen_topic (ctx_ready\<lparr>reenter := b\<rparr>) ''f'' = Returns (topic_key ''f'' 3 1024)"
  using gen_topic_short [of "ctx_ready\<lparr>reenter := b\<rparr>" "''f''"]
  by (simp add: ctx_ready_fields PATH_MAX_def)

lemma bins_usable_ready: "bins_usable (Some ctx_ready)"
  by (simp add: bins_usable_def ctx_ready_fields)

text \<open>A run of \<open>fopen\<close> in which the subscriber fetches the file: the real \<open>fopen\<close> is
  called by the subscriber, to write the file, and then for the application.\<close>

lemma fopen_world_cons:
  "fopen build_default world_cons (Some ctx_ready) (Some ''/cons/f'') ''r'' =
     ([Set_reenter False, Subscribe_via_flux ''/cons'' ''f'',
       Flux_kvs_lookup None (topic_key ''f'' 3 1024), Flux_kvs_lookup_get_unpack,
       Flux_rpc_pack 0 ''f'', Flux_rpc_get_raw, Mkdir_as_needed ''/cons'',
       Libc_fopen (Some ''/cons/f'') ''w'', Fwrite 5 ''hello'', Libc_fclose (Some 5),
       Set_reenter True, Libc_fopen (Some ''/cons/f'') ''r''],
      Returns (Some 5, Some ctx_ready))"
  by (simp add: fopen_def open_sync_def dyad_open_sync_def subscribe_via_flux_def
      gen_topic_ready lookup_owner_def fetch_file_def write_file_def fopen_real_def
      fclose_real_def sync_done_def ctx_ready_fields build_default_def world_cons_def
      world_plain_def DYAD_PATH_CONS_ENV_def)

lemma first_with_property:
  assumes "\<forall>y \<in> set front. \<not> P y" and "x \<in> set front"
  shows "x \<in> set (takeWhile (\<lambda>y. \<not> P y) (front @ rest))"
  using assms by (simp add: takeWhile_append2)

lemma close_trace:
  "dlsym_fails w ''close'' \<and> fst (close bld w ctx fd) = [] \<or>
   (\<exists>ev ev'. fst (close bld w ctx fd) = (Fsync fd # ev @ [Libc_close fd]) @ ev' \<and>
      (\<forall>e \<in> set (Fsync fd # ev @ [Libc_close fd]). \<not> is_publish_event e))"
proof (cases "dlsym_fails w ''close''")
  case True
  then show ?thesis by (simp add: close_def)
next
  case False
  let ?ts = "to_sync_path w ctx (fd < 0) fd"
  let ?t = "close_tail bld w ctx ?ts fd (Libc_close fd) (libc_close w fd)"
  obtain ev ev' where t: "fst ?t = ev @ Libc_close fd # ev'"
      "\<forall>e \<in> set ev. \<not> is_publish_event e"
    using close_tail_trace [of bld w ctx ?ts fd "Libc_close fd" "libc_close w fd"] by blast
  have "fst (close bld w ctx fd) = (Fsync fd # ev @ [Libc_close fd]) @ ev'"
    using False t(1) by (auto simp: close_def split: prod.splits)
  moreover have "\<forall>e \<in> set (Fsync fd # ev @ [Libc_close fd]). \<not> is_publish_event e"
    using t(2) by (auto simp: is_publish_event_def)
  ultimately show ?thesis by blast
qed

lemma fclose_trace:
  "(\<forall>e \<in> set (fst (fclose bld w ctx fp)). \<not> is_publish_event e) \<or>
   (\<exists>ev ev'. fst (fclose bld w ctx fp) =
        (Fflush fp # Fsync (fileno w fp) # ev @ [Libc_fclose fp]) @ ev' \<and>
      (\<forall>e \<in> set (Fflush fp # Fsync (fileno w fp) # ev @ [Libc_fclose fp]).
         \<not> is_publish_event e))"
proof (cases "dlsym_fails w ''fclose'' \<or> fp = None")
  case True
  then show ?thesis by (auto simp: fclose_def is_publish_event_def)
next
  case False
  let ?ts = "to_sync_path w ctx (fp = None) (fileno w fp)"
  let ?t = "close_tail bld w ctx ?ts (fileno w fp) (Libc_fclose fp) (libc_fclose w fp)"
  obtain ev ev' where t: "fst ?t = ev @ Libc_fclose fp # ev'"
      "\<forall>e \<in> set ev. \<not> is_publish_event e"
    using close_tail_trace [of bld w ctx ?ts "fileno w fp" "Libc_fclose fp" "libc_fclose w fp"]
    by blast
  have "fst (fclose bld w ctx fp) =
          (Fflush fp # Fsync (fileno w fp) # ev @ [Libc_fclose fp]) @ ev'"
    using False t(1) by (auto simp: fclose_def Let_def split: prod.splits)
  moreover have "\<forall>e \<in> set (Fflush fp # Fsync (fileno w fp) # ev @ [Libc_fclose fp]).
                   \<not> is_publish_event e"
    using t(2) by (auto simp: is_publish_event_def)
  ultimately show ?thesis by blast
qed

text \<open>
  Claim C4. In every run of the interposed \<open>close\<close>, whatever lies in front of an event
  of the publisher (the entry into \<open>publish_via_flux\<close>, the creation of the
  transaction, the packing of the ownership record, its commit and the wait for it)
  includes the \<open>fsync\<close> of the descriptor and the real \<open>close\<close> of it; in every run of
  the interposed \<open>fclose\<close> it includes the \<open>fflush\<close> of the stream, the \<open>fsync\<close> of its
  descriptor and the real \<open>fclose\<close>.
\<close>

theorem publish_after_fsync_and_close:
  "(fst (close bld w ctx fd) = pre @ e # post \<and> is_publish_event e \<longrightarrow>
      Fsync fd \<in> set pre \<and> Libc_close fd \<in> set pre) \<and>
   (fst (fclose bld w ctx fp) = pre' @ e' # post' \<and> is_publish_event e' \<longrightarrow>
      Fflush fp \<in> set pre' \<and> Fsync (fileno w fp) \<in> set pre' \<and> Libc_fclose fp \<in> set pre')"
proof -
  have c: "Fsync fd \<in> set pre \<and> Libc_close fd \<in> set pre"
    if tr: "fst (close bld w ctx fd) = pre @ e # post" and e: "is_publish_event e"
  proof -
    from close_trace [of w bld ctx fd] tr
    obtain ev ev' where s: "fst (close bld w ctx fd) = (Fsync fd # ev @ [Libc_close fd]) @ ev'"
        "\<forall>e \<in> set (Fsync fd # ev @ [Libc_close fd]). \<not> is_publish_event e"
      by auto
    have "x \<in> set pre" if "x \<in> set (Fsync fd # ev @ [Libc_close fd])" for x
      using before_first [OF tr, of is_publish_event, OF e]
        first_with_property [OF s(2) that, of ev'] s(1) by simp
    then show ?thesis by simp
  qed
  have f: "Fflush fp \<in> set pre' \<and> Fsync (fileno w fp) \<in> set pre' \<and> Libc_fclose fp \<in> set pre'"
    if tr: "fst (fclose bld w ctx fp) = pre' @ e' # post'" and e: "is_publish_event e'"
  proof -
    from fclose_trace [of bld w ctx fp] tr e
    obtain ev ev' where s: "fst (fclose bld w ctx fp) =
          (Fflush fp # Fsync (fileno w fp) # ev @ [Libc_fclose fp]) @ ev'"
        "\<forall>e \<in> set (Fflush fp # Fsync (fileno w fp) # ev @ [Libc_fclose fp]).
           \<not> is_publish_event e"
      by auto
    have "x \<in> set pre'" if "x \<in> set (Fflush fp # Fsync (fileno w fp) # ev @ [Libc_fclose fp])" for x
      using before_first [OF tr, of is_publish_event, OF e]
        first_with_property [OF s(2) that, of ev'] s(1) by simp
    then show ?thesis by simp
  qed
  from c f show ?thesis by blast
qed

lemma close_world_prod:
  "close build_default world_prod (Some ctx_ready) 3 =
     ([Fsync 3, Fcntl_getfl 3, Libc_close 3, Set_reenter False] @
      Publish_via_flux ''/prod'' ''f'' #
      [Flux_kvs_txn_create, Flux_kvs_txn_pack (topic_key ''f'' 3 1024) 1, Flux_kvs_commit None,
       Flux_future_wait_for, Set_reenter True],
      Returns (0, Some ctx_ready))"
  by (simp add: close_def to_sync_path_def close_tail_def sync_dir_step_def is_wronly_def
      close_sync_def dyad_close_sync_def publish_via_flux_def gen_topic_ready sync_done_def
      ctx_ready_fields build_default_def world_prod_def world_plain_def DYAD_PATH_PROD_ENV_def
      O_ACCMODE_def O_WRONLY_def)

lemma fclose_world_prod:
  "fclose build_default world_prod (Some ctx_ready) (Some 3) =
     ([Fflush (Some 3), Fsync 3, Fcntl_getfl 3, Libc_fclose (Some 3), Set_reenter False] @
      Publish_via_flux ''/prod'' ''f'' #
      [Flux_kvs_txn_create, Flux_kvs_txn_pack (topic_key ''f'' 3 1024) 1, Flux_kvs_commit None,
       Flux_future_wait_for, Set_reenter True],
      Stream_Ok (Returns (0, Some ctx_ready)))"
  by (simp add: fclose_def to_sync_path_def close_tail_def sync_dir_step_def is_wronly_def
      close_sync_def dyad_close_sync_def publish_via_flux_def gen_topic_ready sync_done_def
      ctx_ready_fields build_default_def world_prod_def world_plain_def DYAD_PATH_PROD_ENV_def
      O_ACCMODE_def O_WRONLY_def)

theorem publish_after_fsync_and_close_witness:
  "fst (close build_default world_prod (Some ctx_ready) 3) =
     [Fsync 3, Fcntl_getfl 3, Libc_close 3, Set_reenter False] @
     Publish_via_flux ''/prod'' ''f'' #
     [Flux_kvs_txn_create, Flux_kvs_txn_pack (topic_key ''f'' 3 1024) 1, Flux_kvs_commit None,
      Flux_future_wait_for, Set_reenter True] \<and>
   is_publish_event (Publish_via_flux ''/prod'' ''f'') \<and>
   Fsync 3 \<in> set [Fsync 3, Fcntl_getfl 3, Libc_close 3, Set_reenter False] \<and>
   Libc_close 3 \<in> set [Fsync 3, Fcntl_getfl 3, Libc_close 3, Set_reenter False] \<and>
   fst (fclose build_default world_prod (Some ctx_ready) (Some 3)) =
     [Fflush (Some 3), Fsync 3, Fcntl_getfl 3, Libc_fclose (Some 3), Set_reenter False] @
     Publish_via_flux ''/prod'' ''f'' #
     [Flux_kvs_txn_create, Flux_kvs_txn_pack (topic_key ''f'' 3 1024) 1, Flux_kvs_commit None,
      Flux_future_wait_for, Set_reenter True] \<and>
   Libc_fclose (Some 3) \<in>
     set [Fflush (Some 3), Fsync 3, Fcntl_getfl 3, Libc_fclose (Some 3), Set_reenter False]"
proof -
  have p: "is_publish_event (Publish_via_flux ''/prod'' ''f'')"
    by (simp add: is_publish_event_def)
  have c: "fst (close build_default world_prod (Some ctx_ready) 3) =
     [Fsync 3, Fcntl_getfl 3, Libc_close 3, Set_reenter False] @
     Publish_via_flux ''/prod'' ''f'' #
     [Flux_kvs_txn_create, Flux_kvs_txn_pack (topic_key ''f'' 3 1024) 1, Flux_kvs_commit None,
      Flux_future_wait_for, Set_reenter True]"
    by (simp add: close_world_prod)
  have f: "fst (fclose build_default world_prod (Some ctx_ready) (Some 3)) =
     [Fflush (Some 3), Fsync 3, Fcntl_getfl 3, Libc_fclose (Some 3), Set_reenter False] @
     Publish_via_flux ''/prod'' ''f'' #
     [Flux_kvs_txn_create, Flux_kvs_txn_pack (topic_key ''f'' 3 1024) 1, Flux_kvs_commit None,
      Flux_future_wait_for, Set_reenter True]"
    by (simp add: fclose_world_prod)
  from publish_after_fsync_and_close [where bld = build_default and w = world_prod
      and ctx = "Some ctx_ready" and fd = 3 and fp = "Some 3"
      and pre = "[Fsync 3, Fcntl_getfl 3, Libc_close 3, Set_reenter False]"
      and e = "Publish_via_flux ''/prod'' ''f''"
      and pre' = "[Fflush (Some 3), Fsync 3, Fcntl_getfl 3, Libc_fclose (Some 3), Set_reenter False]"
      and e' = "Publish_via_flux ''/prod'' ''f''"] c f p
  show ?thesis by simp
qed

text \<open>Where the hooks of the open side fall through to the real call at once.\<close>

lemma fopen_other_mode:
  assumes "mode \<noteq> ''r''" and "\<not> dlsym_fails w ''fopen''"
  shows "fopen bld w ctx path mode = ([Libc_fopen path mode], Returns (libc_fopen w path mode, ctx))"
  using assms by (simp add: fopen_def)

lemma open_hook_mode_not_0:
  assumes "(if oflag AND O_CREAT \<noteq> 0 then varg else 0) \<noteq> 0" and "\<not> dlsym_fails w ''open''"
  shows "open_hook bld w ctx path oflag varg =
           ([Libc_open path oflag varg], Returns (libc_open w path oflag varg, ctx))"
  using assms by (auto simp: open_hook_def Let_def O_RDONLY_def split: if_splits)

text \<open>
  Claim C5 at the inputs where the code departs from it. In a world where \<open>/cons/f\<close>
  is a managed file of the consumer, \<open>open ("/cons/f", O_WRONLY)\<close> runs the subscriber
  before the real call although the flags are not read-only, and so does
  \<open>open ("/cons/f", O_WRONLY | O_CREAT, 0)\<close> although \<open>O_CREAT\<close> is present: the hook
  compares the mode argument, which is 0 in both calls, with \<open>O_RDONLY\<close>, not the flags.
\<close>

theorem open_write_only_subscribes:
  "O_WRONLY AND O_ACCMODE \<noteq> O_RDONLY \<and>
   open_hook build_default world_cons (Some ctx_ready) (Some ''/cons/f'') O_WRONLY 0 =
     ([Set_reenter False, Subscribe_via_flux ''/cons'' ''f'',
       Flux_kvs_lookup None (topic_key ''f'' 3 1024), Flux_kvs_lookup_get_unpack,
       Flux_rpc_pack 0 ''f'', Flux_rpc_get_raw, Mkdir_as_needed ''/cons'',
       Libc_fopen (Some ''/cons/f'') ''w'', Fwrite 5 ''hello'', Libc_fclose (Some 5),
       Set_reenter True, Libc_open (Some ''/cons/f'') O_WRONLY 0],
      Returns (3, Some ctx_ready)) \<and>
   (O_WRONLY OR O_CREAT) AND O_CREAT \<noteq> 0 \<and>
   open_hook build_default world_cons (Some ctx_ready) (Some ''/cons/f'') (O_WRONLY OR O_CREAT) 0 =
     ([Set_reenter False, Subscribe_via_flux ''/cons'' ''f'',
       Flux_kvs_lookup None (topic_key ''f'' 3 1024), Flux_kvs_lookup_get_unpack,
       Flux_rpc_pack 0 ''f'', Flux_rpc_get_raw, Mkdir_as_needed ''/cons'',
       Libc_fopen (Some ''/cons/f'') ''w'', Fwrite 5 ''hello'', Libc_fclose (Some 5),
       Set_reenter True, Libc_open (Some ''/cons/f'') (O_WRONLY OR O_CREAT) 0],
      Returns (3, Some ctx_ready))"
  by (simp add: open_hook_def open_sync_def dyad_open_sync_def subscribe_via_flux_def
      gen_topic_ready lookup_owner_def fetch_file_def write_file_def fopen_real_def
      fclose_real_def sync_done_def ctx_ready_fields build_default_def world_cons_def
      world_plain_def DYAD_PATH_CONS_ENV_def O_WRONLY_def O_CREAT_def O_RDONLY_def O_ACCMODE_def)

theorem open_write_only_subscribes_witness:
  "Subscribe_via_flux ''/cons'' ''f'' \<in>
     set (fst (open_hook build_default world_cons (Some ctx_ready) (Some ''/cons/f'') O_WRONLY 0)) \<and>
   Subscribe_via_flux ''/cons'' ''f'' \<in>
     set (fst (open_hook build_default world_cons (Some ctx_ready) (Some ''/cons/f'')
                 (O_WRONLY OR O_CREAT) 0))"
  using open_write_only_subscribes by simp

text \<open>The key fields after the constructor: the defaults when the variables are unset,
  and otherwise whatever \<open>atoi\<close> makes of their values.\<close>

lemma dyad_sync_init_key_fields_unset:
  assumes "\<not> malloc_fails w" and "getenv w ''DYAD_KEY_DEPTH'' = None"
    and "getenv w ''DYAD_KEY_BINS'' = None"
  shows "\<exists>c. dyad_sync_init bld dflt w None = Done (Some c) \<and> key_depth c = 3 \<and> key_bins c = 1024"
  using dyad_sync_init_fresh [OF assms(1), of bld dflt] assms(2,3) by auto

lemma atoi_0: "atoi ''0'' = 0"
  by (simp add: atoi_def strtol_def isspace_def isdigit_def)

lemma atoi_not_a_number: "atoi ''abc'' = 0"
  by (simp add: atoi_def strtol_def isspace_def isdigit_def)

text \<open>
  Claim C9 at an input where the code departs from it. With \<open>DYAD_KEY_BINS=0\<close> in the
  environment the constructor completes with \<open>key_bins = 0\<close>; the first \<open>open\<close> of a
  managed file then enters the subscriber, where \<open>gen_path_key\<close> takes a hash modulo 0,
  and the real \<open>open\<close> is never reached.
\<close>

theorem key_bins_zero_after_init:
  "dyad_sync_init build_default ctx_default world_zero_bins None =
     Done (Some (ctx_ready\<lparr>key_bins := 0\<rparr>)) \<and>
   open_hook build_default world_zero_bins (Some (ctx_ready\<lparr>key_bins := 0\<rparr>))
       (Some ''/cons/f'') O_RDONLY 0 =
     ([Set_reenter False, Subscribe_via_flux ''/cons'' ''f''], Div_By_Zero)"
proof -
  have i: "dyad_sync_init build_default ctx_default world_zero_bins None =
     Done (Some (ctx_ready\<lparr>key_bins := 0\<rparr>))"
    by (simp add: dyad_sync_init_def atoi_0 world_zero_bins_def world_cons_def world_plain_def
        ctx_ready_def ctx_default_def build_default_def DYAD_PATH_CONS_ENV_def)
  have g: "gen_topic (ctx_ready\<lparr>key_bins := 0, reenter := False\<rparr>) ''f'' = Div_By_Zero"
    by (rule gen_topic_div_by_zero) (simp_all add: ctx_ready_fields)
  have o: "open_hook build_default world_zero_bins (Some (ctx_ready\<lparr>key_bins := 0\<rparr>))
       (Some ''/cons/f'') O_RDONLY 0 =
     ([Set_reenter False, Subscribe_via_flux ''/cons'' ''f''], Div_By_Zero)"
    by (simp add: open_hook_def open_sync_def dyad_open_sync_def subscribe_via_flux_def g
        ctx_ready_fields world_zero_bins_def world_cons_def world_plain_def
        DYAD_PATH_CONS_ENV_def O_RDONLY_def O_CREAT_def)
  from i o show ?thesis by simp
qed

theorem key_bins_zero_after_init_witness:
  "snd (open_hook build_default world_zero_bins (Some (ctx_ready\<lparr>key_bins := 0\<rparr>))
          (Some ''/cons/f'') O_RDONLY 0) = Div_By_Zero"
  using key_bins_zero_after_init by simp

text \<open>
  Claim C2 at inputs where the code departs from it. With \<open>DYAD_KEY_BINS=0\<close> in the
  environment the constructor completes with \<open>key_bins = 0\<close>. On the consumer,
  \<open>fopen ("/cons/f", "r")\<close> of a managed file then resolves the real \<open>fopen\<close>, enters the
  subscriber and ends there in the hash modulo 0 of \<open>gen_path_key\<close>: the real \<open>fopen\<close>
  is not called and nothing is returned. On the producer, \<open>close (3)\<close> of a managed
  file opened for writing calls the real \<open>close\<close>, enters the publisher and ends there
  in the same way: the value of the real \<open>close\<close> is never returned.
\<close>

theorem real_call_lost_with_zero_bins:
  "dyad_sync_init build_default ctx_default world_zero_bins None =
     Done (Some (ctx_ready\<lparr>key_bins := 0\<rparr>)) \<and>
   \<not> dlsym_fails world_zero_bins ''fopen'' \<and>
   fopen build_default world_zero_bins (Some (ctx_ready\<lparr>key_bins := 0\<rparr>))
       (Some ''/cons/f'') ''r'' =
     ([Set_reenter False, Subscribe_via_flux ''/cons'' ''f''], Div_By_Zero) \<and>
   dyad_sync_init build_default ctx_default world_prod_zero_bins None =
     Done (Some (ctx_ready\<lparr>key_bins := 0\<rparr>)) \<and>
   \<not> dlsym_fails world_prod_zero_bins ''close'' \<and>
   close build_default world_prod_zero_bins (Some (ctx_ready\<lparr>key_bins := 0\<rparr>)) 3 =
     ([Fsync 3, Fcntl_getfl 3, Libc_close 3, Set_reenter False, Publish_via_flux ''/prod'' ''f''],
      Div_By_Zero)"
proof -
  have i: "dyad_sync_init build_default ctx_default world_zero_bins None =
     Done (Some (ctx_ready\<lparr>key_bins := 0\<rparr>))"
    by (simp add: dyad_sync_init_def atoi_0 world_zero_bins_def world_cons_def world_plain_def
        ctx_ready_def ctx_default_def build_default_def DYAD_PATH_CONS_ENV_def)
  have j: "dyad_sync_init build_default ctx_default world_prod_zero_bins None =
     Done (Some (ctx_ready\<lparr>key_bins := 0\<rparr>))"
    by (simp add: dyad_sync_init_def atoi_0 world_prod_zero_bins_def world_prod_def
        world_plain_def ctx_ready_def ctx_default_def build_default_def DYAD_PATH_PROD_ENV_def)
  have d: "\<not> dlsym_fails world_zero_bins ''fopen''"
      "\<not> dlsym_fails world_prod_zero_bins ''close''"
    by (simp_all add: world_zero_bins_def world_cons_def world_prod_zero_bins_def
        world_prod_def world_plain_def)
  have g: "gen_topic (ctx_ready\<lparr>key_bins := 0, reenter := False\<rparr>) ''f'' = Div_By_Zero"
    by (rule gen_topic_div_by_zero) (simp_all add: ctx_ready_fields)
  have f: "fopen build_default world_zero_bins (Some (ctx_ready\<lparr>key_bins := 0\<rparr>))
       (Some ''/cons/f'') ''r'' =
     ([Set_reenter False, Subscribe_via_flux ''/cons'' ''f''], Div_By_Zero)"
    by (simp add: fopen_def open_sync_def dyad_open_sync_def subscribe_via_flux_def g
        ctx_ready_fields world_zero_bins_def world_cons_def world_plain_def
        DYAD_PATH_CONS_ENV_def)
  have c: "close build_default world_prod_zero_bins (Some (ctx_ready\<lparr>key_bins := 0\<rparr>)) 3 =
     ([Fsync 3, Fcntl_getfl 3, Libc_close 3, Set_reenter False, Publish_via_flux ''/prod'' ''f''],
      Div_By_Zero)"
    by (simp add: close_def to_sync_path_def close_tail_def sync_dir_step_def is_wronly_def
        close_sync_def dyad_close_sync_def publish_via_flux_def g
        ctx_ready_fields build_default_def world_prod_zero_bins_def world_prod_def
        world_plain_def DYAD_PATH_PROD_ENV_def O_ACCMODE_def O_WRONLY_def)
  from i j d f c show ?thesis by simp
qed

theorem real_call_lost_with_zero_bins_witness:
  "Libc_fopen (Some ''/cons/f'') ''r'' \<notin>
     set (fst (fopen build_default world_zero_bins (Some (ctx_ready\<lparr>key_bins := 0\<rparr>))
                 (Some ''/cons/f'') ''r'')) \<and>
   snd (close build_default world_prod_zero_bins (Some (ctx_ready\<lparr>key_bins := 0\<rparr>)) 3) =
     Div_By_Zero"
  using real_call_lost_with_zero_bins by simp

end
